theory Spec2Isabelle
  imports Complex_Main "HOL-Library.Multiset" "HOL-Library.Sublist" "HOL-Library.Word"
begin

section \<open>Data model\<close>

text \<open>
  Python floats are modelled as real numbers and Python ints as \<open>int\<close>. The dataclasses
  of \<^verbatim>\<open>contour_analyzer.py\<close> and \<^verbatim>\<open>step_planner.py\<close> become records; the tier is the
  string the source stores.
\<close>

record AnalyzedContour =
  points_normalised :: "(real \<times> real) list"
  area :: real
  perimeter :: real
  depth :: int
  parent_idx :: int
  centroid :: "real \<times> real"
  tier :: string
  importance_score :: real

record DrawingStep =
  step_number :: int
  phase_name :: string
  description :: string
  contours :: "AnalyzedContour list"
  is_shading_step :: bool

text \<open>One entry of the table \<^verbatim>\<open>_PHASES\<close> (a dict in the source).\<close>

record Phase =
  ph_name :: string
  ph_description :: string
  tiers :: "string list"
  min_importance :: real
  max_contours :: int

section \<open>Step planner\<close>

text \<open>The table \<^verbatim>\<open>_PHASES\<close>; the dash in a description is written as a hyphen.\<close>

definition PHASES :: "Phase list" where
  "PHASES =
    [\<lparr>ph_name = ''Primary Outline'',
      ph_description = ''Draw the main outer shape - the overall silhouette'',
      tiers = [''outer''], min_importance = 6 / 10, max_contours = 3\<rparr>,
     \<lparr>ph_name = ''Secondary Shapes'',
      ph_description = ''Add large internal structures and secondary outlines'',
      tiers = [''outer'', ''inner''], min_importance = 4 / 10, max_contours = 5\<rparr>,
     \<lparr>ph_name = ''Internal Details'',
      ph_description = ''Draw inner features and medium-sized details'',
      tiers = [''inner''], min_importance = 2 / 10, max_contours = 8\<rparr>,
     \<lparr>ph_name = ''Fine Details'',
      ph_description = ''Add fine lines and smaller shapes'',
      tiers = [''inner'', ''detail''], min_importance = 1 / 10, max_contours = 12\<rparr>,
     \<lparr>ph_name = ''Texture & Finishing'',
      ph_description = ''Add textures, tiny details, and finishing touches'',
      tiers = [''detail''], min_importance = 0, max_contours = 999\<rparr>]"

text \<open>
  The inner loop of \<^verbatim>\<open>plan_steps\<close>: one pass over \<^verbatim>\<open>enumerate(contours)\<close> for one phase,
  threading the batch and the set of assigned indices. The three \<^verbatim>\<open>continue\<close> tests come
  in the source's order; the \<^verbatim>\<open>break\<close> is tested after the append.
\<close>

fun scan_phase ::
  "Phase \<Rightarrow> (nat \<times> AnalyzedContour) list \<Rightarrow> AnalyzedContour list \<Rightarrow> nat set
    \<Rightarrow> AnalyzedContour list \<times> nat set" where
  "scan_phase ph [] batch assigned = (batch, assigned)"
| "scan_phase ph ((i, c) # rest) batch assigned =
    (if i \<in> assigned then scan_phase ph rest batch assigned
     else if tier c \<notin> set (tiers ph) then scan_phase ph rest batch assigned
     else if importance_score c < min_importance ph then scan_phase ph rest batch assigned
     else if int (length (batch @ [c])) \<ge> max_contours ph
       then (batch @ [c], insert i assigned)
       else scan_phase ph rest (batch @ [c]) (insert i assigned))"

text \<open>The outer loop over the phases; a phase with an empty batch emits no step.\<close>

fun run_phases ::
  "Phase list \<Rightarrow> AnalyzedContour list \<Rightarrow> nat set \<Rightarrow> DrawingStep list \<Rightarrow> int
    \<Rightarrow> nat set \<times> DrawingStep list \<times> int" where
  "run_phases [] cs assigned steps step_num = (assigned, steps, step_num)"
| "run_phases (ph # phs) cs assigned steps step_num =
    (case scan_phase ph (enumerate 0 cs) [] assigned of
      (batch, assigned') \<Rightarrow>
        if batch \<noteq> [] then
          run_phases phs cs assigned'
            (steps @ [\<lparr>step_number = step_num, phase_name = ph_name ph,
                       description = ph_description ph, contours = batch,
                       is_shading_step = False\<rparr>])
            (step_num + 1)
        else run_phases phs cs assigned' steps step_num)"

text \<open>The marker location both \<^verbatim>\<open>plan_steps\<close> and the orchestrator compute.\<close>

definition primary_centroid :: "AnalyzedContour list \<Rightarrow> real \<times> real" where
  "primary_centroid cs = (case cs of [] \<Rightarrow> (1 / 2, 1 / 2) | c # _ \<Rightarrow> centroid c)"

definition remaining_step :: "int \<Rightarrow> AnalyzedContour list \<Rightarrow> DrawingStep" where
  "remaining_step n remaining =
    \<lparr>step_number = n, phase_name = ''Additional Details'',
     description = ''Complete any remaining small details'', contours = remaining,
     is_shading_step = False\<rparr>"

definition shading_step :: "int \<Rightarrow> DrawingStep" where
  "shading_step n =
    \<lparr>step_number = n, phase_name = ''Shading'',
     description = ''Add shading - fill in shadow and mid-tone regions'', contours = [],
     is_shading_step = True\<rparr>"

definition grid_step :: DrawingStep where
  "grid_step =
    \<lparr>step_number = 0, phase_name = ''Preparation'',
     description = ''Your blank grid - start drawing at the marked point'', contours = [],
     is_shading_step = False\<rparr>"

text \<open>
  \<^verbatim>\<open>plan_steps\<close>: the phases start numbering at 1, the leftover contours and the shading
  step follow, then every step so far is renumbered by one and the preparation step is
  put in front. The local \<^verbatim>\<open>primary_centroid\<close> of the source is computed and not stored.
\<close>

definition plan_steps :: "AnalyzedContour list \<Rightarrow> bool \<Rightarrow> DrawingStep list" where
  "plan_steps cs include_shading =
    (case run_phases PHASES cs {} [] 1 of
      (assigned, steps, step_num) \<Rightarrow>
        let remaining = map (\<lambda>i. cs ! i) (filter (\<lambda>i. i \<notin> assigned) [0..<length cs]);
            steps1 = (if remaining \<noteq> [] then steps @ [remaining_step step_num remaining]
                      else steps);
            step_num1 = (if remaining \<noteq> [] then step_num + 1 else step_num);
            steps2 = (if include_shading then steps1 @ [shading_step step_num1] else steps1);
            steps3 = map (\<lambda>s. s\<lparr>step_number := step_number s + 1\<rparr>) steps2
        in grid_step # steps3)"

text \<open>A single large outer shape, as the analyzer ranks it: depth 0, importance 0.93.\<close>

definition example_outer :: AnalyzedContour where
  "example_outer =
    \<lparr>points_normalised = [(1 / 10, 1 / 10), (3 / 10, 1 / 10), (3 / 10, 1 / 2), (1 / 10, 1 / 2)],
     area = 8 / 100, perimeter = 12 / 10, depth = 0, parent_idx = - 1,
     centroid = (2 / 10, 3 / 10), tier = ''outer'', importance_score = 93 / 100\<rparr>"

text \<open>The invariant of the phase loop: the batches so far, as lists of input indices.\<close>

definition batches_of ::
  "AnalyzedContour list \<Rightarrow> DrawingStep list \<Rightarrow> nat list list \<Rightarrow> nat set \<Rightarrow> bool" where
  "batches_of cs steps iss A \<longleftrightarrow>
     map contours steps = map (map ((!) cs)) iss \<and>
     list_all (\<lambda>is. subseq is [0..<length cs]) iss \<and>
     distinct (concat iss) \<and> set (concat iss) = A \<and>
     list_all (\<lambda>s. \<not> is_shading_step s) steps"

section \<open>Orchestrator: the render calls\<close>

text \<open>
  The step loop of \<^verbatim>\<open>generate_drawing_steps\<close>, as the list of argument records it
  hands to \<^verbatim>\<open>render_step\<close>: the accumulated contours, the step's batch, the primary
  centroid (passed for every step) and the tone mask for the shading step only.
\<close>

record 'm RenderCall =
  rc_step_number :: int
  rc_phase_name :: string
  rc_description :: string
  previous_contours :: "AnalyzedContour list"
  new_contours :: "AnalyzedContour list"
  start_centroid :: "(real \<times> real) option"
  shading_mask :: "'m option"

fun render_loop ::
  "DrawingStep list \<Rightarrow> AnalyzedContour list \<Rightarrow> real \<times> real \<Rightarrow> 'm \<Rightarrow> 'm RenderCall list" where
  "render_loop [] all_previous pc tone_mask = []"
| "render_loop (s # ss) all_previous pc tone_mask =
    \<lparr>rc_step_number = step_number s, rc_phase_name = phase_name s,
     rc_description = description s, previous_contours = all_previous,
     new_contours = contours s, start_centroid = Some pc,
     shading_mask = (if is_shading_step s then Some tone_mask else None)\<rparr>
    # render_loop ss (all_previous @ contours s) pc tone_mask"

definition render_calls :: "AnalyzedContour list \<Rightarrow> bool \<Rightarrow> 'm \<Rightarrow> 'm RenderCall list" where
  "render_calls cs include_shading tone_mask =
     render_loop (plan_steps cs include_shading) [] (primary_centroid cs) tone_mask"

text \<open>The test \<^verbatim>\<open>if start_centroid and step_number <= 1\<close> of \<^verbatim>\<open>render_step\<close>; a pair is truthy.\<close>

definition draws_start_marker :: "'m RenderCall \<Rightarrow> bool" where
  "draws_start_marker call \<longleftrightarrow> start_centroid call \<noteq> None \<and> rc_step_number call \<le> 1"

section \<open>Tone mapper and shading mapper\<close>

text \<open>
  A single-channel \<^verbatim>\<open>uint8\<close> image is a list of rows of bytes. The calls into OpenCV
  whose results the code only passes on (\<^verbatim>\<open>GaussianBlur\<close>,
  \<^verbatim>\<open>connectedComponentsWithStats\<close>) are parameters of the functions that make them;
  \<^verbatim>\<open>inRange\<close> is written out. The \<^verbatim>\<open>dtype\<close> conversion of a non-\<^verbatim>\<open>uint8\<close> input is
  outside the model: the input is the \<^verbatim>\<open>uint8\<close> image the docstrings ask for.
\<close>

type_synonym gray_image = "8 word list list"

text \<open>
  The ways a call can fail. \<open>UndefinedCast\<close> is not an exception: NumPy leaves the
  cast of a float outside the range of \<^verbatim>\<open>int32\<close> undefined, and the model reports such a
  cast instead of inventing a value for it.
\<close>

datatype py_error = ZeroDivisionError | IndexError | UndefinedCast

text \<open>\<^verbatim>\<open>tone_mapper.DEFAULT_BANDS\<close>: label, low, high, mask value.\<close>

definition tone_DEFAULT_BANDS :: "(string \<times> int \<times> int \<times> 8 word) list" where
  "tone_DEFAULT_BANDS =
    [(''deep_shadow'', 0, 80, 0), (''mid_tone'', 81, 180, 1), (''highlight'', 181, 255, 2)]"

text \<open>\<^verbatim>\<open>shading_mapper.DEFAULT_BANDS\<close>: label, low, high.\<close>

definition shading_DEFAULT_BANDS :: "(string \<times> int \<times> int) list" where
  "shading_DEFAULT_BANDS =
    [(''deep_shadow'', 0, 63), (''mid_tone'', 64, 191), (''highlight'', 192, 255)]"

text \<open>\<^verbatim>\<open>cv2.inRange\<close>: 255 where the pixel lies in the closed range, 0 elsewhere.\<close>

definition inRange :: "gray_image \<Rightarrow> int \<Rightarrow> int \<Rightarrow> gray_image" where
  "inRange src lowerb upperb =
     map (map (\<lambda>p. if lowerb \<le> uint p \<and> uint p \<le> upperb then 255 else 0)) src"

text \<open>The masked assignment \<^verbatim>\<open>mask[region > 0] = val\<close> on two arrays of one shape.\<close>

definition assign_where :: "gray_image \<Rightarrow> gray_image \<Rightarrow> 8 word \<Rightarrow> gray_image" where
  "assign_where msk region val =
     map2 (map2 (\<lambda>m r. if r > 0 then val else m)) msk region"

text \<open>The loop over the bands of \<^verbatim>\<open>generate_tone_mask\<close>, in the order of the table.\<close>

fun apply_bands ::
  "(string \<times> int \<times> int \<times> 8 word) list \<Rightarrow> gray_image \<Rightarrow> gray_image \<Rightarrow> gray_image" where
  "apply_bands [] smoothed msk = msk"
| "apply_bands ((label, low, high, val) # bands) smoothed msk =
     apply_bands bands smoothed (assign_where msk (inRange smoothed low high) val)"

definition generate_tone_mask ::
  "(nat \<Rightarrow> gray_image \<Rightarrow> gray_image) \<Rightarrow> gray_image
    \<Rightarrow> (string \<times> int \<times> int \<times> 8 word) list option \<Rightarrow> nat \<Rightarrow> gray_image" where
  "generate_tone_mask GaussianBlur grayscale bands blur_ksize =
     (let bands' = (case bands of None \<Rightarrow> tone_DEFAULT_BANDS | Some b \<Rightarrow> b);
          smoothed = GaussianBlur blur_ksize grayscale;
          msk = map (map (\<lambda>_. 2)) smoothed
      in apply_bands bands' smoothed msk)"

text \<open>
  Python's \<^verbatim>\<open>round(x, ndigits)\<close> on the real line: to the nearest multiple of
  \<open>10 ^ -ndigits\<close>, a tie going to the even one.
\<close>

definition py_round :: "real \<Rightarrow> nat \<Rightarrow> real" where
  "py_round x ndigits =
     (let y = x * 10 ^ ndigits; f = \<lfloor>y\<rfloor>;
          r = (if y - of_int f < 1 / 2 then f
               else if y - of_int f > 1 / 2 then f + 1
               else if even f then f else f + 1)
      in of_int r / 10 ^ ndigits)"

text \<open>
  \<^verbatim>\<open>tone_summary\<close>: the dict is an association list in the order the source writes the
  keys; a mask with no pixel makes the first division raise.
\<close>

definition tone_summary :: "gray_image \<Rightarrow> py_error + (string \<times> real) list" where
  "tone_summary msk =
     (let px = concat msk; total = length px in
      if total = 0 then Inl ZeroDivisionError
      else Inr
        [(''deep_shadow'', py_round (real (length (filter (\<lambda>p. p = 0) px)) / real total * 100) 1),
         (''mid_tone'', py_round (real (length (filter (\<lambda>p. p = 1) px)) / real total * 100) 1),
         (''highlight'', py_round (real (length (filter (\<lambda>p. p = 2) px)) / real total * 100) 1)])"

text \<open>One row of the statistics of \<^verbatim>\<open>connectedComponentsWithStats\<close>.\<close>

record cc_stat =
  CC_STAT_LEFT :: int
  CC_STAT_TOP :: int
  CC_STAT_WIDTH :: int
  CC_STAT_HEIGHT :: int
  CC_STAT_AREA :: int

record BoundingBox =
  x_min :: real
  y_min :: real
  x_max :: real
  y_max :: real

record ShadingRegion =
  region_id :: int
  label :: string
  intensity_range :: "real \<times> real"
  pixel_count :: int
  bounding_box :: BoundingBox

text \<open>
  The loop of \<^verbatim>\<open>_regions_for_band\<close> over the labels 1, 2, ... (the rows after the
  background row). The divisions by the image size raise on an image with no column or
  no row.
\<close>

fun region_loop ::
  "cc_stat list \<Rightarrow> nat \<Rightarrow> nat \<Rightarrow> string \<Rightarrow> int \<Rightarrow> int \<Rightarrow> int \<Rightarrow> ShadingRegion list
    \<Rightarrow> py_error + ShadingRegion list" where
  "region_loop [] h w lbl low high offset regions = Inr regions"
| "region_loop (st # stats) h w lbl low high offset regions =
    (if real_of_int (CC_STAT_AREA st) < real h * real w * (1 / 1000)
       then region_loop stats h w lbl low high offset regions
     else if w = 0 \<or> h = 0 then Inl ZeroDivisionError
     else region_loop stats h w lbl low high offset
       (regions @
         [\<lparr>region_id = offset + int (length regions), label = lbl,
           intensity_range = (real_of_int low, real_of_int high),
           pixel_count = CC_STAT_AREA st,
           bounding_box =
             \<lparr>x_min = py_round (real_of_int (CC_STAT_LEFT st) / real w) 6,
              y_min = py_round (real_of_int (CC_STAT_TOP st) / real h) 6,
              x_max = py_round (real_of_int (CC_STAT_LEFT st + CC_STAT_WIDTH st) / real w) 6,
              y_max = py_round (real_of_int (CC_STAT_TOP st + CC_STAT_HEIGHT st) / real h) 6\<rparr>\<rparr>]))"

definition regions_for_band ::
  "(gray_image \<Rightarrow> cc_stat list) \<Rightarrow> gray_image \<Rightarrow> string \<Rightarrow> int \<Rightarrow> int \<Rightarrow> int
    \<Rightarrow> py_error + ShadingRegion list" where
  "regions_for_band connectedComponentsWithStats gray lbl low high offset =
     (let msk = inRange gray low high;
          stats = connectedComponentsWithStats msk;
          h = length gray;
          w = (case gray of [] \<Rightarrow> 0 | row # _ \<Rightarrow> length row)
      in region_loop (tl stats) h w lbl low high offset [])"

fun shading_loop ::
  "(gray_image \<Rightarrow> cc_stat list) \<Rightarrow> gray_image \<Rightarrow> (string \<times> int \<times> int) list \<Rightarrow> int
    \<Rightarrow> ShadingRegion list \<Rightarrow> py_error + ShadingRegion list" where
  "shading_loop cc grayscale [] offset all_regions = Inr all_regions"
| "shading_loop cc grayscale ((lbl, low, high) # bands) offset all_regions =
    (case regions_for_band cc grayscale lbl low high offset of
      Inl e \<Rightarrow> Inl e
    | Inr regions \<Rightarrow>
        shading_loop cc grayscale bands (offset + int (length regions)) (all_regions @ regions))"

definition map_shading ::
  "(gray_image \<Rightarrow> cc_stat list) \<Rightarrow> gray_image \<Rightarrow> (string \<times> int \<times> int) list option
    \<Rightarrow> py_error + ShadingRegion list" where
  "map_shading cc grayscale bands =
     shading_loop cc grayscale
       (case bands of None \<Rightarrow> shading_DEFAULT_BANDS | Some b \<Rightarrow> b) 0 []"

text \<open>
  What the band loop does to one pixel: \<open>m\<close> is the value the mask holds so far, every
  band whose range contains the smoothed intensity \<open>p\<close> overwrites it in turn.
\<close>

fun band_value :: "(string \<times> int \<times> int \<times> 8 word) list \<Rightarrow> 8 word \<Rightarrow> 8 word \<Rightarrow> 8 word" where
  "band_value [] p m = m"
| "band_value ((lbl, low, high, val) # bands) p m =
     band_value bands p (if low \<le> uint p \<and> uint p \<le> high then val else m)"

text \<open>
  A labelling of the one-pixel masks, as OpenCV reports them: row 0 is the background,
  which holds the pixel of the mask \<open>[[0]]\<close>; the mask \<open>[[255]]\<close> has an empty
  background and one component of one pixel.
\<close>

definition one_pixel_row :: cc_stat where
  "one_pixel_row =
     \<lparr>CC_STAT_LEFT = 0, CC_STAT_TOP = 0, CC_STAT_WIDTH = 1, CC_STAT_HEIGHT = 1, CC_STAT_AREA = 1\<rparr>"

definition empty_row :: cc_stat where
  "empty_row =
     \<lparr>CC_STAT_LEFT = 0, CC_STAT_TOP = 0, CC_STAT_WIDTH = 0, CC_STAT_HEIGHT = 0, CC_STAT_AREA = 0\<rparr>"

definition cc_one_pixel :: "gray_image \<Rightarrow> cc_stat list" where
  "cc_one_pixel msk = (if msk = [[255]] then [empty_row, one_pixel_row] else [one_pixel_row])"

section \<open>Canvas renderer: the coordinate transform\<close>

text \<open>Python's \<^verbatim>\<open>int(x)\<close> on a float: truncation towards zero.\<close>

definition py_int :: "real \<Rightarrow> int" where
  "py_int x = (if 0 \<le> x then \<lfloor>x\<rfloor> else \<lceil>x\<rceil>)"

text \<open>
  NumPy's \<^verbatim>\<open>astype(np.int32)\<close> on a float: truncation towards zero when the result fits
  32 bits.
\<close>

definition astype_int32 :: "real \<Rightarrow> py_error + int" where
  "astype_int32 x =
     (if - 2147483648 \<le> py_int x \<and> py_int x \<le> 2147483647 then Inr (py_int x)
      else Inl UndefinedCast)"

text \<open>The scaling and translation of the points, with the cast of both columns.\<close>

fun scale_points ::
  "int \<Rightarrow> int \<Rightarrow> int \<Rightarrow> int \<Rightarrow> (real \<times> real) list \<Rightarrow> py_error + (int \<times> int) list" where
  "scale_points render_w render_h offset_x offset_y [] = Inr []"
| "scale_points render_w render_h offset_x offset_y ((px, py) # points) =
    (case astype_int32 (px * real_of_int render_w + real_of_int offset_x) of
      Inl e \<Rightarrow> Inl e
    | Inr cx \<Rightarrow>
       (case astype_int32 (py * real_of_int render_h + real_of_int offset_y) of
         Inl e \<Rightarrow> Inl e
       | Inr cy \<Rightarrow>
          (case scale_points render_w render_h offset_x offset_y points of
            Inl e \<Rightarrow> Inl e
          | Inr rest \<Rightarrow> Inr ((cx, cy) # rest))))"

text \<open>
  \<^verbatim>\<open>_normalised_to_canvas\<close>. The draw area is a tuple of Python ints, so \<^verbatim>\<open>area_w / area_h\<close>
  raises on a draw area of height 0, and \<^verbatim>\<open>area_w / image_aspect\<close> raises on an aspect
  of 0.0 in the branch that divides by it. \<^verbatim>\<open>//\<close> is floor division.
\<close>

definition normalised_to_canvas ::
  "(real \<times> real) list \<Rightarrow> int \<times> int \<times> int \<times> int \<Rightarrow> real \<Rightarrow> py_error + (int \<times> int) list" where
  "normalised_to_canvas points draw_area image_aspect =
     (case draw_area of (x_start, y_start, x_end, y_end) \<Rightarrow>
       let area_w = x_end - x_start; area_h = y_end - y_start in
       if area_h = 0 then Inl ZeroDivisionError
       else
         let area_aspect = real_of_int area_w / real_of_int area_h in
         if image_aspect > area_aspect \<and> image_aspect = 0 then Inl ZeroDivisionError
         else
           let render_w = (if image_aspect > area_aspect then area_w
                           else py_int (real_of_int area_h * image_aspect));
               render_h = (if image_aspect > area_aspect
                           then py_int (real_of_int area_w / image_aspect)
                           else area_h);
               offset_x = x_start + (area_w - render_w) div 2;
               offset_y = y_start + (area_h - render_h) div 2
           in scale_points render_w render_h offset_x offset_y points)"

text \<open>The 32-bit signed range.\<close>

definition in_int32 :: "int \<Rightarrow> bool" where
  "in_int32 n \<longleftrightarrow> - 2147483648 \<le> n \<and> n \<le> 2147483647"

section \<open>Blueprint engine: proportion scoring\<close>

text \<open>
  A landmark is a dict with the keys \<^verbatim>\<open>name\<close>, \<^verbatim>\<open>x\<close> and \<^verbatim>\<open>y\<close>; the table of ideal
  proportions is a dict from key to float, here an association list.
\<close>

record Landmark =
  lm_name :: string
  lm_x :: real
  lm_y :: real

definition IDEAL_PROPORTIONS :: "(string \<times> real) list" where
  "IDEAL_PROPORTIONS =
    [(''shoulder_width'', 30 / 100), (''torso_length'', 32 / 100), (''upper_arm'', 17 / 100),
     (''forearm'', 17 / 100), (''thigh'', 20 / 100), (''shin'', 20 / 100),
     (''head_to_shoulder'', 12 / 100)]"

text \<open>\<^verbatim>\<open>_dist\<close>: the Euclidean distance of two landmarks.\<close>

definition landmark_dist :: "Landmark \<Rightarrow> Landmark \<Rightarrow> real" where
  "landmark_dist a b = sqrt ((lm_x a - lm_x b)\<^sup>2 + (lm_y a - lm_y b)\<^sup>2)"

text \<open>\<^verbatim>\<open>_lm_by_name\<close>: the first landmark of that name, or \<^verbatim>\<open>None\<close>.\<close>

fun lm_by_name :: "Landmark list \<Rightarrow> string \<Rightarrow> Landmark option" where
  "lm_by_name [] n = None"
| "lm_by_name (lm # landmarks) n = (if lm_name lm = n then Some lm else lm_by_name landmarks n)"

text \<open>The local table \<^verbatim>\<open>pairs\<close> of \<^verbatim>\<open>_score_proportions\<close>.\<close>

definition score_pairs :: "(string \<times> string \<times> string) list" where
  "score_pairs =
    [(''left_shoulder'', ''right_shoulder'', ''shoulder_width''),
     (''left_shoulder'', ''left_hip'', ''torso_length''),
     (''left_shoulder'', ''left_elbow'', ''upper_arm''),
     (''left_elbow'', ''left_wrist'', ''forearm''),
     (''left_hip'', ''left_knee'', ''thigh''),
     (''left_knee'', ''left_ankle'', ''shin''),
     (''nose'', ''left_shoulder'', ''head_to_shoulder'')]"

datatype lookup_error = KeyError

text \<open>
  The loop of \<^verbatim>\<open>_score_proportions\<close> over the pairs, threading the list \<^verbatim>\<open>errors\<close>; a
  key missing from the table would raise.
\<close>

fun score_loop ::
  "Landmark list \<Rightarrow> (string \<times> string \<times> string) list \<Rightarrow> real list \<Rightarrow> lookup_error + real list" where
  "score_loop landmarks [] errors = Inr errors"
| "score_loop landmarks ((a_name, b_name, key) # ps) errors =
    (case lm_by_name landmarks a_name of
      None \<Rightarrow> score_loop landmarks ps errors
    | Some a \<Rightarrow>
       (case lm_by_name landmarks b_name of
         None \<Rightarrow> score_loop landmarks ps errors
       | Some b \<Rightarrow>
          (case map_of IDEAL_PROPORTIONS key of
            None \<Rightarrow> Inl KeyError
          | Some ideal \<Rightarrow>
              score_loop landmarks ps
                (errors @ [min (\<bar>landmark_dist a b - ideal\<bar> / max ideal (1 / 1000000)) 1]))))"

definition score_proportions :: "Landmark list \<Rightarrow> lookup_error + real" where
  "score_proportions landmarks =
    (case score_loop landmarks score_pairs [] of
      Inl e \<Rightarrow> Inl e
    | Inr errors \<Rightarrow>
        if errors = [] then Inr 50
        else Inr (py_round ((1 - sum_list errors / real (length errors)) * 100) 2))"

text \<open>
  The claim's reading of the score, to compare with the loop: the pairs both of whose
  names occur among the landmarks, and the clamped relative error of such a pair.
\<close>

definition resolvable_pairs :: "Landmark list \<Rightarrow> (string \<times> string \<times> string) list" where
  "resolvable_pairs landmarks =
     filter (\<lambda>(a_name, b_name, key).
       a_name \<in> lm_name ` set landmarks \<and> b_name \<in> lm_name ` set landmarks) score_pairs"

definition pair_error :: "Landmark list \<Rightarrow> string \<times> string \<times> string \<Rightarrow> real" where
  "pair_error landmarks p =
     (case p of (a_name, b_name, key) \<Rightarrow>
        let measured = landmark_dist (the (find (\<lambda>lm. lm_name lm = a_name) landmarks))
                         (the (find (\<lambda>lm. lm_name lm = b_name) landmarks));
            ideal = the (map_of IDEAL_PROPORTIONS key)
        in max 0 (min (\<bar>measured - ideal\<bar> / max ideal (1 / 1000000)) 1))"

text \<open>Two landmarks 0.15 apart, for the scenario in which only the head-to-shoulder pair scores.\<close>

definition nose_lm :: Landmark where
  "nose_lm = \<lparr>lm_name = ''nose'', lm_x = 1 / 2, lm_y = 1 / 10\<rparr>"

definition shoulder_lm :: Landmark where
  "shoulder_lm = \<lparr>lm_name = ''left_shoulder'', lm_x = 1 / 2, lm_y = 1 / 4\<rparr>"

section \<open>Contour analyzer\<close>

text \<open>
  What \<^verbatim>\<open>cv2.findContours\<close> hands to the analyzer: the contours, each with the
  measurements OpenCV computes from it (\<^verbatim>\<open>contourArea\<close>, \<^verbatim>\<open>arcLength\<close>, the moments
  \<^verbatim>\<open>m00\<close>, \<^verbatim>\<open>m10\<close>, \<^verbatim>\<open>m01\<close>), and the hierarchy, one row
  \<^verbatim>\<open>[next, previous, first_child, parent]\<close> per contour.
\<close>

record RawContour =
  pixel_points :: "(int \<times> int) list"
  contourArea :: real
  arcLength :: real
  m00 :: real
  m10 :: real
  m01 :: real

type_synonym hierarchy = "(int \<times> int \<times> int \<times> int) list"

text \<open>
  The read \<^verbatim>\<open>hierarchy[0, i, 3]\<close>: NumPy counts a negative index from the end and raises
  out of range.
\<close>

definition hierarchy_parent :: "hierarchy \<Rightarrow> int \<Rightarrow> py_error + int" where
  "hierarchy_parent hier i =
     (if 0 \<le> i \<and> i < int (length hier)
        then (case hier ! nat i of (nxt, prv, child, parent) \<Rightarrow> Inr parent)
      else if - int (length hier) \<le> i \<and> i < 0
        then (case hier ! nat (int (length hier) + i) of (nxt, prv, child, parent) \<Rightarrow> Inr parent)
      else Inl IndexError)"

text \<open>
  \<^verbatim>\<open>_compute_depth\<close>: the walk up the parent links. On a hierarchy with a cycle the loop
  does not end, so the model is a partial function: \<open>None\<close> is "does not return".
\<close>

partial_function (option) compute_depth_loop ::
  "hierarchy \<Rightarrow> int \<Rightarrow> int \<Rightarrow> (py_error + int) option" where
  "compute_depth_loop hier current d =
     (case hierarchy_parent hier current of
       Inl e \<Rightarrow> Some (Inl e)
     | Inr parent \<Rightarrow>
         if parent \<noteq> - 1 then compute_depth_loop hier parent (d + 1) else Some (Inr d))"

definition compute_depth :: "hierarchy \<Rightarrow> int \<Rightarrow> (py_error + int) option" where
  "compute_depth hier idx = compute_depth_loop hier idx 0"

text \<open>\<^verbatim>\<open>_classify_tier\<close>.\<close>

definition classify_tier :: "int \<Rightarrow> string" where
  "classify_tier d = (if d = 0 then ''outer'' else if d \<le> 2 then ''inner'' else ''detail'')"

text \<open>
  \<^verbatim>\<open>_compute_centroid\<close>: from the moments, or the mean of the points when \<^verbatim>\<open>m00\<close> is 0
  (a contour of OpenCV has at least one point; NumPy's mean of no point is outside the
  model).
\<close>

definition compute_centroid :: "RawContour \<Rightarrow> real \<times> real" where
  "compute_centroid contour =
     (if m00 contour = 0
      then (real_of_int (sum_list (map fst (pixel_points contour)))
              / real (length (pixel_points contour)),
            real_of_int (sum_list (map snd (pixel_points contour)))
              / real (length (pixel_points contour)))
      else (m10 contour / m00 contour, m01 contour / m00 contour))"

text \<open>
  The body of the loop of \<^verbatim>\<open>analyze_contours\<close> for a contour that passed the area test,
  given its depth and parent: the normalisation and the importance score.
\<close>

definition analyzed_contour :: "nat \<Rightarrow> nat \<Rightarrow> RawContour \<Rightarrow> int \<Rightarrow> int \<Rightarrow> AnalyzedContour" where
  "analyzed_contour w h contour dpt parent =
     (let image_area = real (h * w);
          area_norm = contourArea contour / image_area;
          perimeter_norm = arcLength contour / real (max w h);
          c = compute_centroid contour;
          depth_weight = real_of_int (max 0 (5 - dpt)) / 5;
          area_weight = min (area_norm * 10) 1;
          structure_weight = min (perimeter_norm * 2) 1;
          importance = 50 / 100 * depth_weight + 35 / 100 * area_weight
                       + 15 / 100 * structure_weight
      in \<lparr>points_normalised =
             map (\<lambda>(px, py). (real_of_int px / real w, real_of_int py / real h))
               (pixel_points contour),
           area = area_norm, perimeter = perimeter_norm, depth = dpt, parent_idx = parent,
           centroid = (fst c / real w, snd c / real h),
           tier = classify_tier dpt, importance_score = importance\<rparr>)"

text \<open>
  The loop over \<^verbatim>\<open>enumerate(contours)\<close>. A contour below the area floor is skipped before
  anything else is computed; the depth walk comes before the first division by the image
  area, which raises on an image with no pixel.
\<close>

fun analyze_loop ::
  "hierarchy \<Rightarrow> nat \<Rightarrow> nat \<Rightarrow> real \<Rightarrow> (nat \<times> RawContour) list \<Rightarrow> AnalyzedContour list
    \<Rightarrow> (py_error + AnalyzedContour list) option" where
  "analyze_loop hier w h min_area_px [] analyzed = Some (Inr analyzed)"
| "analyze_loop hier w h min_area_px ((idx, contour) # rest) analyzed =
    (if contourArea contour < min_area_px then analyze_loop hier w h min_area_px rest analyzed
     else
       (case compute_depth hier (int idx) of
         None \<Rightarrow> None
       | Some (Inl e) \<Rightarrow> Some (Inl e)
       | Some (Inr dpt) \<Rightarrow>
          (case hierarchy_parent hier (int idx) of
            Inl e \<Rightarrow> Some (Inl e)
          | Inr parent \<Rightarrow>
              if h * w = 0 then Some (Inl ZeroDivisionError)
              else analyze_loop hier w h min_area_px rest
                     (analyzed @ [analyzed_contour w h contour dpt parent]))))"

text \<open>
  \<^verbatim>\<open>list.sort(key=..., reverse=True)\<close>, as CPython does it: reverse the list, sort it
  stably in ascending order of the key, reverse the result.
\<close>

definition sort_reverse :: "('a \<Rightarrow> real) \<Rightarrow> 'a list \<Rightarrow> 'a list" where
  "sort_reverse key xs = rev (sort_key key (rev xs))"

text \<open>
  \<^verbatim>\<open>analyze_contours\<close> on an edge map of height \<open>h\<close> and width \<open>w\<close>, from the result of
  \<^verbatim>\<open>findContours\<close> on the dilated edges: the contours and the hierarchy, \<open>None\<close> when
  OpenCV returns none.
\<close>

definition extract_contours ::
  "nat \<Rightarrow> nat \<Rightarrow> RawContour list \<Rightarrow> hierarchy \<Rightarrow> real \<Rightarrow> (py_error + AnalyzedContour list) option" where
  "extract_contours h w cnts hier min_area_fraction =
     analyze_loop hier w h (real (h * w) * min_area_fraction) (enumerate 0 cnts) []"

definition analyze_contours ::
  "nat \<Rightarrow> nat \<Rightarrow> RawContour list \<Rightarrow> hierarchy option \<Rightarrow> real
    \<Rightarrow> (py_error + AnalyzedContour list) option" where
  "analyze_contours h w cnts hier min_area_fraction =
     (case hier of
       None \<Rightarrow> Some (Inr [])
     | Some hr \<Rightarrow>
         if length cnts = 0 then Some (Inr [])
         else
           (case extract_contours h w cnts hr min_area_fraction of
             None \<Rightarrow> None
           | Some (Inl e) \<Rightarrow> Some (Inl e)
           | Some (Inr analyzed) \<Rightarrow> Some (Inr (sort_reverse importance_score analyzed))))"

text \<open>
  A hierarchy is a forest when every parent link is \<open>-1\<close> or an index of the table that
  is lower in the given rank: the links have no cycle.
\<close>

definition forest :: "hierarchy \<Rightarrow> (nat \<Rightarrow> nat) \<Rightarrow> bool" where
  "forest hier rank =
     list_all (\<lambda>i. case hier ! i of (nxt, prv, child, parent) \<Rightarrow>
        parent = - 1 \<or> (0 \<le> parent \<and> parent < int (length hier) \<and> rank (nat parent) < rank i))
       [0..<length hier]"

text \<open>The parent link and the depth of the contour at an index of the table.\<close>

definition parent_of :: "hierarchy \<Rightarrow> nat \<Rightarrow> int" where
  "parent_of hier i = (case hier ! i of (nxt, prv, child, parent) \<Rightarrow> parent)"

definition depth_of :: "hierarchy \<Rightarrow> nat \<Rightarrow> int" where
  "depth_of hier i = (case compute_depth hier (int i) of Some (Inr d) \<Rightarrow> d | _ \<Rightarrow> 0)"

text \<open>The contours that pass the area floor, with their indices, in extraction order.\<close>

definition surviving ::
  "nat \<Rightarrow> nat \<Rightarrow> RawContour list \<Rightarrow> real \<Rightarrow> (nat \<times> RawContour) list" where
  "surviving h w cnts min_area_fraction =
     filter (\<lambda>(idx, contour). \<not> contourArea contour < real (h * w) * min_area_fraction)
       (enumerate 0 cnts)"

text \<open>
  An example on a 100 by 100 edge map: two outer shapes of equal measurements, a speck
  below the area floor between them, and a smaller shape inside the first.
\<close>

definition example_contours :: "RawContour list" where
  "example_contours =
    [\<lparr>pixel_points = [(10, 10), (80, 10), (80, 80), (10, 80)], contourArea = 5000,
      arcLength = 300, m00 = 5000, m10 = 225000, m01 = 225000\<rparr>,
     \<lparr>pixel_points = [(90, 90), (91, 90), (91, 92)], contourArea = 2,
      arcLength = 6, m00 = 2, m10 = 181, m01 = 181\<rparr>,
     \<lparr>pixel_points = [(20, 20), (30, 20), (30, 30), (20, 30)], contourArea = 100,
      arcLength = 40, m00 = 100, m10 = 2500, m01 = 2500\<rparr>,
     \<lparr>pixel_points = [(15, 15), (85, 15), (85, 85), (15, 85)], contourArea = 5000,
      arcLength = 300, m00 = 5000, m10 = 250000, m01 = 250000\<rparr>]"

definition example_hierarchy :: hierarchy where
  "example_hierarchy = [(1, - 1, 2, - 1), (3, 0, - 1, - 1), (- 1, - 1, - 1, 0), (- 1, 1, - 1, - 1)]"

section \<open>Step planner: proofs\<close>

lemma enumerate_nth_upt: "enumerate 0 cs = map (\<lambda>i. (i, cs ! i)) [0..<length cs]"
  by (rule nth_equalityI) (simp_all add: nth_enumerate_eq)

lemma scan_phase_indices:
  "\<exists>is. scan_phase ph (map (\<lambda>i. (i, cs ! i)) js) batch A = (batch @ map ((!) cs) is, A \<union> set is)
        \<and> subseq is js \<and> set is \<inter> A = {}"
proof (induction js arbitrary: batch A)
  case Nil
  show ?case by (rule exI [of _ "[]"]) simp
next
  case (Cons j js)
  let ?c = "cs ! j"
  show ?case
  proof (cases "j \<in> A \<or> tier ?c \<notin> set (tiers ph) \<or> importance_score ?c < min_importance ph")
    case True
    from Cons.IH [of batch A] obtain "is" where
      "scan_phase ph (map (\<lambda>i. (i, cs ! i)) js) batch A = (batch @ map ((!) cs) is, A \<union> set is)"
      "subseq is js" "set is \<inter> A = {}" by blast
    with True show ?thesis
      by (intro exI [of _ "is"]) auto
  next
    case skip: False
    show ?thesis
    proof (cases "int (length (batch @ [?c])) \<ge> max_contours ph")
      case True
      with skip show ?thesis
        by (intro exI [of _ "[j]"]) auto
    next
      case False
      from Cons.IH [of "batch @ [?c]" "insert j A"] obtain "is" where
        "scan_phase ph (map (\<lambda>i. (i, cs ! i)) js) (batch @ [?c]) (insert j A)
          = ((batch @ [?c]) @ map ((!) cs) is, insert j A \<union> set is)"
        "subseq is js" "set is \<inter> insert j A = {}" by blast
      with skip False show ?thesis
        by (intro exI [of _ "j # is"]) auto
    qed
  qed
qed

lemma run_phases_numbers:
  "run_phases phs cs A steps n = (A', steps', n') \<Longrightarrow> m \<le> n \<Longrightarrow>
   map step_number steps = [m..n - 1] \<Longrightarrow> map step_number steps' = [m..n' - 1] \<and> m \<le> n'"
proof (induction phs arbitrary: A steps n)
  case Nil
  then show ?case by simp
next
  case (Cons ph phs)
  obtain batch A1 where sc: "scan_phase ph (enumerate 0 cs) [] A = (batch, A1)"
    by (cases "scan_phase ph (enumerate 0 cs) [] A")
  show ?case
  proof (cases "batch = []")
    case True
    with Cons.prems sc have "run_phases phs cs A1 steps n = (A', steps', n')" by simp
    from Cons.IH [OF this Cons.prems(2,3)] show ?thesis .
  next
    case False
    let ?s = "\<lparr>step_number = n, phase_name = ph_name ph, description = ph_description ph,
               contours = batch, is_shading_step = False\<rparr>"
    from False Cons.prems sc
    have run: "run_phases phs cs A1 (steps @ [?s]) (n + 1) = (A', steps', n')" by simp
    have "[m..n] = [m..n - 1] @ [n]" using Cons.prems(2) by (rule upto_rec2)
    then have nums: "map step_number (steps @ [?s]) = [m..n + 1 - 1]"
      using Cons.prems(3) by simp
    from Cons.prems(2) have "m \<le> n + 1" by simp
    from Cons.IH [OF run this nums] show ?thesis .
  qed
qed

lemma subseq_set_mono: "subseq xs ys \<Longrightarrow> set xs \<subseteq> set ys"
proof
  fix a assume "subseq xs ys" and "a \<in> set xs"
  then obtain b where "b \<in> set ys" and "a = b" by (rule list_emb_set)
  then show "a \<in> set ys" by simp
qed

lemma subseq_sorted_wrt: "subseq xs ys \<Longrightarrow> sorted_wrt P ys \<Longrightarrow> sorted_wrt P xs"
proof (induction ys arbitrary: xs)
  case Nil
  then have "xs = []" by (simp add: list_emb_Nil2)
  then show ?case by simp
next
  case (Cons y ys)
  note IH = Cons.IH and sub = Cons.prems(1) and srt = Cons.prems(2)
  show ?case
  proof (cases xs)
    case Nil
    then show ?thesis by simp
  next
    case xs: (Cons x xs')
    show ?thesis
    proof (cases "x = y")
      case True
      with xs sub have sub': "subseq xs' ys" by simp
      then have "set xs' \<subseteq> set ys" by (rule subseq_set_mono)
      moreover from IH [OF sub'] srt have "sorted_wrt P xs'" by simp
      ultimately show ?thesis using xs True srt by auto
    next
      case False
      with xs sub have "subseq xs ys" by simp
      from IH [OF this] srt show ?thesis by simp
    qed
  qed
qed

lemma subseq_distinct_upt: "subseq is [0..<n] \<Longrightarrow> distinct is"
  using subseq_sorted_wrt [of "is" "[0..<n]" "(<)"] by (simp add: strict_sorted_iff)

lemma run_phases_batches:
  "run_phases phs cs A steps n = (A', steps', n') \<Longrightarrow> batches_of cs steps iss A \<Longrightarrow>
   \<exists>iss'. batches_of cs steps' iss' A'"
proof (induction phs arbitrary: A steps n iss)
  case Nil
  then show ?case by auto
next
  case (Cons ph phs)
  from scan_phase_indices [of ph cs "[0..<length cs]" "[]" A] obtain "is" where
    sc: "scan_phase ph (enumerate 0 cs) [] A = (map ((!) cs) is, A \<union> set is)"
    and sub: "subseq is [0..<length cs]" and disj: "set is \<inter> A = {}"
    by (auto simp: enumerate_nth_upt)
  show ?case
  proof (cases "is = []")
    case True
    with Cons.prems(1) sc have "run_phases phs cs A steps n = (A', steps', n')" by simp
    from Cons.IH [OF this Cons.prems(2)] show ?thesis .
  next
    case False
    let ?s = "\<lparr>step_number = n, phase_name = ph_name ph, description = ph_description ph,
               contours = map ((!) cs) is, is_shading_step = False\<rparr>"
    from False Cons.prems(1) sc
    have run: "run_phases phs cs (A \<union> set is) (steps @ [?s]) (n + 1) = (A', steps', n')"
      by simp
    have "distinct is" using sub by (rule subseq_distinct_upt)
    with Cons.prems(2) sub disj have "batches_of cs (steps @ [?s]) (iss @ [is]) (A \<union> set is)"
      unfolding batches_of_def by auto
    from Cons.IH [OF run this] show ?thesis .
  qed
qed

lemma map_succ_upto: "map (\<lambda>x. x + 1) [i..j] = [i + 1..j + 1]"
proof (induction i j rule: upto.induct)
  case (1 i j)
  show ?case
  proof (cases "i \<le> j")
    case True
    then have "[i..j] = i # [i + 1..j]" and "[i + 1..j + 1] = (i + 1) # [i + 1 + 1..j + 1]"
      by (simp_all add: upto_rec1)
    with 1 True show ?thesis by simp
  next
    case False
    then show ?thesis by simp
  qed
qed

lemma plan_steps_cases:
  obtains A steps n where "run_phases PHASES cs {} [] 1 = (A, steps, n)"
    and "plan_steps cs sh =
      grid_step # map (\<lambda>s. s\<lparr>step_number := step_number s + 1\<rparr>)
        ((if filter (\<lambda>i. i \<notin> A) [0..<length cs] \<noteq> []
          then steps @ [remaining_step n (map ((!) cs) (filter (\<lambda>i. i \<notin> A) [0..<length cs]))]
          else steps)
         @ (if sh then [shading_step (if filter (\<lambda>i. i \<notin> A) [0..<length cs] \<noteq> [] then n + 1 else n)]
            else []))"
proof -
  obtain A steps n where r: "run_phases PHASES cs {} [] 1 = (A, steps, n)"
    by (cases "run_phases PHASES cs {} [] 1")
  show thesis
    by (rule that [OF r]) (simp add: plan_steps_def r Let_def)
qed

text \<open>
  The numbers of every plan, in closed form: the preparation step is 0 and the steps after
  it count from 2, because the phase loop already numbers from 1 and the final
  renumbering adds one more.
\<close>

lemma plan_steps_numbers:
  "map step_number (plan_steps cs sh) = 0 # [2..int (length (plan_steps cs sh))]"
proof -
  obtain A steps n where r: "run_phases PHASES cs {} [] 1 = (A, steps, n)"
    and p: "plan_steps cs sh =
      grid_step # map (\<lambda>s. s\<lparr>step_number := step_number s + 1\<rparr>)
        ((if filter (\<lambda>i. i \<notin> A) [0..<length cs] \<noteq> []
          then steps @ [remaining_step n (map ((!) cs) (filter (\<lambda>i. i \<notin> A) [0..<length cs]))]
          else steps)
         @ (if sh then [shading_step (if filter (\<lambda>i. i \<notin> A) [0..<length cs] \<noteq> [] then n + 1 else n)]
            else []))"
    by (rule plan_steps_cases)
  define rem where "rem = filter (\<lambda>i. i \<notin> A) [0..<length cs]"
  define steps1 where
    "steps1 = (if rem \<noteq> [] then steps @ [remaining_step n (map ((!) cs) rem)] else steps)"
  define n1 where "n1 = (if rem \<noteq> [] then n + 1 else n)"
  define steps2 where "steps2 = steps1 @ (if sh then [shading_step n1] else [])"
  define n2 where "n2 = (if sh then n1 + 1 else n1)"
  have p': "plan_steps cs sh = grid_step # map (\<lambda>s. s\<lparr>step_number := step_number s + 1\<rparr>) steps2"
    unfolding p steps2_def steps1_def n1_def rem_def by simp
  from run_phases_numbers [OF r, of 1] have s0: "map step_number steps = [1..n - 1]" and n: "1 \<le> n"
    by simp_all
  have s1: "map step_number steps1 = [1..n1 - 1]" and n1: "1 \<le> n1"
    using s0 n upto_rec2 [of 1 n] by (auto simp: steps1_def n1_def remaining_step_def)
  have s2: "map step_number steps2 = [1..n2 - 1]" and n2: "1 \<le> n2"
    using s1 n1 upto_rec2 [of 1 n1] by (auto simp: steps2_def n2_def shading_step_def)
  have "length steps2 = nat (n2 - 1)"
    using arg_cong [OF s2, of length] by simp
  then have len: "int (length (plan_steps cs sh)) = n2" using n2 by (simp add: p')
  have "map step_number (map (\<lambda>s. s\<lparr>step_number := step_number s + 1\<rparr>) steps2)
      = map (\<lambda>x. x + 1) (map step_number steps2)" by (simp add: comp_def)
  also have "\<dots> = [2..n2]" using map_succ_upto [of 1 "n2 - 1"] by (simp add: s2)
  finally have "map step_number (map (\<lambda>s. s\<lparr>step_number := step_number s + 1\<rparr>) steps2) = [2..n2]" .
  moreover have "step_number grid_step = 0" by (simp add: grid_step_def)
  ultimately show ?thesis unfolding len unfolding p' by simp
qed

text \<open>
  Claim C1: the step numbers of \<^verbatim>\<open>plan_steps\<close> are contiguous from 0, the k-th step
  carrying number k. The code does not number its steps so: on the empty contour list
  with shading requested it returns two steps numbered 0 and 2, and on a single outer
  shape three steps numbered 0, 2 and 3. The number 1 is skipped.
\<close>

theorem plan_steps_numbering_gap:
  "map step_number (plan_steps [] True) = [0, 2]
   \<and> map step_number (plan_steps [example_outer] True) = [0, 2, 3]"
  by (simp add: plan_steps_def PHASES_def grid_step_def shading_step_def enumerate_eq_zip
      example_outer_def)

lemma mset_filter_split: "mset (filter P xs) + mset (filter (\<lambda>x. \<not> P x) xs) = mset xs"
  by (induction xs) simp_all

lemma mset_split_assigned:
  assumes "distinct js" and "set js \<subseteq> {0..<n}"
  shows "mset js + mset (filter (\<lambda>i. i \<notin> set js) [0..<n]) = mset [0..<n]"
proof -
  have "set js = set (filter (\<lambda>i. i \<in> set js) [0..<n])" using assms(2) by auto
  moreover have "distinct (filter (\<lambda>i. i \<in> set js) [0..<n])" by simp
  ultimately have "mset js = mset (filter (\<lambda>i. i \<in> set js) [0..<n])"
    using assms(1) set_eq_iff_mset_eq_distinct by blast
  then show ?thesis
    using mset_filter_split [of "\<lambda>i. i \<in> set js" "[0..<n]"] by (simp only:)
qed

lemma plan_steps_index_batches:
  "\<exists>iss. map contours (filter (\<lambda>s. \<not> is_shading_step s) (plan_steps cs sh))
            = map (map ((!) cs)) iss
        \<and> list_all (\<lambda>is. subseq is [0..<length cs]) iss
        \<and> mset (concat iss) = mset [0..<length cs]"
proof -
  obtain A steps n where r: "run_phases PHASES cs {} [] 1 = (A, steps, n)"
    and p: "plan_steps cs sh =
      grid_step # map (\<lambda>s. s\<lparr>step_number := step_number s + 1\<rparr>)
        ((if filter (\<lambda>i. i \<notin> A) [0..<length cs] \<noteq> []
          then steps @ [remaining_step n (map ((!) cs) (filter (\<lambda>i. i \<notin> A) [0..<length cs]))]
          else steps)
         @ (if sh then [shading_step (if filter (\<lambda>i. i \<notin> A) [0..<length cs] \<noteq> [] then n + 1 else n)]
            else []))"
    by (rule plan_steps_cases)
  have "batches_of cs [] [] {}" by (simp add: batches_of_def)
  from run_phases_batches [OF r this] obtain iss where b: "batches_of cs steps iss A" ..
  define rem where "rem = filter (\<lambda>i. i \<notin> A) [0..<length cs]"
  define iss1 where "iss1 = [] # iss @ (if rem \<noteq> [] then [rem] else [])"
  from b have cont: "map contours steps = map (map ((!) cs)) iss"
    and subs: "list_all (\<lambda>is. subseq is [0..<length cs]) iss"
    and dist: "distinct (concat iss)" and A: "set (concat iss) = A"
    and nosh: "list_all (\<lambda>s. \<not> is_shading_step s) steps"
    by (simp_all add: batches_of_def)
  have flt: "filter (\<lambda>s. \<not> is_shading_step s) steps = steps"
    using nosh by (simp add: list_all_iff)
  have "filter (\<lambda>s. \<not> is_shading_step s) (plan_steps cs sh)
      = grid_step # map (\<lambda>s. s\<lparr>step_number := step_number s + 1\<rparr>)
          (steps @ (if rem \<noteq> [] then [remaining_step n (map ((!) cs) rem)] else []))"
    unfolding p rem_def [symmetric]
    by (simp add: filter_map comp_def flt grid_step_def remaining_step_def shading_step_def)
  then have 1: "map contours (filter (\<lambda>s. \<not> is_shading_step s) (plan_steps cs sh))
      = map (map ((!) cs)) iss1"
    by (simp add: comp_def cont iss1_def grid_step_def remaining_step_def)
  have "subseq rem [0..<length cs]" by (simp add: rem_def)
  with subs have 2: "list_all (\<lambda>is. subseq is [0..<length cs]) iss1" by (simp add: iss1_def)
  have "set (concat iss) \<subseteq> {0..<length cs}"
  proof
    fix i assume "i \<in> set (concat iss)"
    then obtain "is" where "is \<in> set iss" and "i \<in> set is" by auto
    with subs have "subseq is [0..<length cs]" by (simp add: list_all_iff)
    from subseq_set_mono [OF this] \<open>i \<in> set is\<close> show "i \<in> {0..<length cs}" by auto
  qed
  from mset_split_assigned [OF dist this]
  have "mset (concat iss) + mset rem = mset [0..<length cs]" unfolding rem_def A .
  moreover have "mset (concat iss1) = mset (concat iss) + mset rem"
    by (cases "rem = []") (simp_all add: iss1_def)
  ultimately have 3: "mset (concat iss1) = mset [0..<length cs]" by (simp only:)
  from 1 2 3 show ?thesis by blast
qed

text \<open>
  Claim C2: the batches of the non-shading steps of \<^verbatim>\<open>plan_steps\<close> hold every input
  contour exactly once (as multisets, and index by index: the batches are read off
  index lists that together are a rearrangement of \<open>0..<length cs\<close>), and every
  batch lists its contours in the order of the ranked input (it is a subsequence of the
  input, its indices strictly increasing).
\<close>

theorem plan_steps_partition:
  "mset (concat (map contours (filter (\<lambda>s. \<not> is_shading_step s) (plan_steps cs sh)))) = mset cs
   \<and> list_all (\<lambda>s. subseq (contours s) cs) (filter (\<lambda>s. \<not> is_shading_step s) (plan_steps cs sh))
   \<and> (\<exists>iss. map contours (filter (\<lambda>s. \<not> is_shading_step s) (plan_steps cs sh))
              = map (map ((!) cs)) iss
          \<and> list_all (sorted_wrt (<)) iss
          \<and> list_all (\<lambda>is. set is \<subseteq> {0..<length cs}) iss
          \<and> mset (concat iss) = mset [0..<length cs])"
proof -
  let ?ns = "filter (\<lambda>s. \<not> is_shading_step s) (plan_steps cs sh)"
  from plan_steps_index_batches [of cs sh] obtain iss where
    1: "map contours ?ns = map (map ((!) cs)) iss"
    and 2: "list_all (\<lambda>is. subseq is [0..<length cs]) iss"
    and 3: "mset (concat iss) = mset [0..<length cs]" by blast
  have "concat (map contours ?ns) = map ((!) cs) (concat iss)"
    by (simp add: 1 map_concat)
  then have "mset (concat (map contours ?ns)) = image_mset ((!) cs) (mset (concat iss))" by simp
  also have "\<dots> = mset (map ((!) cs) [0..<length cs])" by (simp add: 3)
  also have "\<dots> = mset cs" by (simp add: map_nth)
  finally have a: "mset (concat (map contours ?ns)) = mset cs" .
  have sub: "subseq (map ((!) cs) is) cs" if "subseq is [0..<length cs]" for "is"
    using subseq_map [OF that, of "(!) cs"] by (simp add: map_nth)
  have "list_all (\<lambda>b. subseq b cs) (map contours ?ns)"
    unfolding 1 using 2 sub by (simp add: list_all_iff)
  then have b: "list_all (\<lambda>s. subseq (contours s) cs) ?ns"
    by (simp add: list_all_iff)
  have c: "list_all (sorted_wrt (<)) iss"
    using 2 subseq_sorted_wrt [of _ "[0..<length cs]" "(<)"] by (simp add: list_all_iff)
  have d: "list_all (\<lambda>is. set is \<subseteq> {0..<length cs}) iss"
    using 2 subseq_set_mono [of _ "[0..<length cs]"] by (simp add: list_all_iff)
  from a b c d 1 3 show ?thesis by blast
qed

text \<open>
  Claim C3: \<^verbatim>\<open>plan_steps\<close> always puts the preparation step first, numbered 0 with an
  empty batch, and that step goes to the renderer with the first ranked contour's
  centroid as its marker location, or the canvas centre \<open>(1/2, 1/2)\<close> when there is no
  contour: the orchestrator passes that location as \<^verbatim>\<open>start_centroid\<close> with the step,
  and the marker is drawn for it.
\<close>

theorem plan_steps_preparation:
  "plan_steps cs sh \<noteq> []
   \<and> hd (plan_steps cs sh) = grid_step
   \<and> step_number (hd (plan_steps cs sh)) = 0
   \<and> contours (hd (plan_steps cs sh)) = []
   \<and> phase_name (hd (plan_steps cs sh)) = ''Preparation''
   \<and> \<not> is_shading_step (hd (plan_steps cs sh))
   \<and> render_calls cs sh tm \<noteq> []
   \<and> rc_step_number (hd (render_calls cs sh tm)) = 0
   \<and> new_contours (hd (render_calls cs sh tm)) = []
   \<and> start_centroid (hd (render_calls cs sh tm))
        = Some (case cs of [] \<Rightarrow> (1 / 2, 1 / 2) | c # _ \<Rightarrow> centroid c)
   \<and> draws_start_marker (hd (render_calls cs sh tm))"
proof -
  obtain A steps n where
    p: "plan_steps cs sh =
      grid_step # map (\<lambda>s. s\<lparr>step_number := step_number s + 1\<rparr>)
        ((if filter (\<lambda>i. i \<notin> A) [0..<length cs] \<noteq> []
          then steps @ [remaining_step n (map ((!) cs) (filter (\<lambda>i. i \<notin> A) [0..<length cs]))]
          else steps)
         @ (if sh then [shading_step (if filter (\<lambda>i. i \<notin> A) [0..<length cs] \<noteq> [] then n + 1 else n)]
            else []))"
    by (rule plan_steps_cases)
  then obtain rest where q: "plan_steps cs sh = grid_step # rest" by blast
  show ?thesis
    unfolding render_calls_def q
    by (simp add: grid_step_def draws_start_marker_def primary_centroid_def)
qed

section \<open>Tone mapper and shading mapper: proofs\<close>

lemma uint8_range: "0 \<le> uint (p :: 8 word) \<and> uint p \<le> 255"
proof -
  have "uint p < 2 ^ LENGTH(8)" by (rule uint_lt2p)
  then have "uint p < 256" by simp
  then show ?thesis by simp
qed

lemma band_value_default:
  "band_value tone_DEFAULT_BANDS p 2 = (if uint p \<le> 80 then 0 else if uint p \<le> 180 then 1 else 2)"
  using uint8_range [of p] by (simp add: tone_DEFAULT_BANDS_def)

lemma default_band_unique:
  "length (filter (\<lambda>(lbl, low, high, val). low \<le> uint (p :: 8 word) \<and> uint p \<le> high) tone_DEFAULT_BANDS) = 1"
  using uint8_range [of p] by (simp add: tone_DEFAULT_BANDS_def)

lemma half_div: "0 < (s::real) \<Longrightarrow> d \<le> 1 / 2 \<Longrightarrow> d / s \<le> 1 / (2 * s)"
proof -
  assume s: "0 < s" and d: "d \<le> 1 / 2"
  from d s have "d / s \<le> (1 / 2) / s" by (rule divide_right_mono [OF _ less_imp_le])
  then show ?thesis by simp
qed


lemma assign_where_map:
  "assign_where (map (map f) sm) (inRange sm low high) val
     = map (map (\<lambda>p. if low \<le> uint p \<and> uint p \<le> high then val else f p)) sm"
proof -
  have row: "map2 (\<lambda>m r. if r > 0 then val else m) (map f row)
               (map (\<lambda>p. if low \<le> uint p \<and> uint p \<le> high then 255 else (0::8 word)) row)
             = map (\<lambda>p. if low \<le> uint p \<and> uint p \<le> high then val else f p) row" for row
    by (induction row) simp_all
  show ?thesis
    unfolding assign_where_def inRange_def
    by (induction sm) (simp_all add: row)
qed

lemma apply_bands_pixelwise:
  "apply_bands bands sm (map (map f) sm) = map (map (\<lambda>p. band_value bands p (f p))) sm"
proof (induction bands arbitrary: f)
  case Nil
  show ?case by simp
next
  case (Cons b bands)
  obtain lbl low high val where b: "b = (lbl, low, high, val)" by (cases b)
  show ?case
    unfolding b apply_bands.simps assign_where_map
    by (simp add: Cons.IH)
qed

lemma generate_tone_mask_pixelwise:
  "generate_tone_mask blur gray bands k =
     map (map (\<lambda>p. band_value (case bands of None \<Rightarrow> tone_DEFAULT_BANDS | Some b \<Rightarrow> b) p 2))
       (blur k gray)"
  unfolding generate_tone_mask_def Let_def
  using apply_bands_pixelwise [of _ "blur k gray" "\<lambda>_. 2"] by simp

lemma band_value_no_match:
  "list_all (\<lambda>(lbl, low, high, val). \<not> (low \<le> uint p \<and> uint p \<le> high)) bands
    \<Longrightarrow> band_value bands p m = m"
  by (induction bands p m rule: band_value.induct) auto

lemma py_round_error: "\<bar>py_round x n - x\<bar> \<le> 1 / (2 * 10 ^ n)"
proof -
  define s :: real where "s = 10 ^ n"
  define y where "y = x * s"
  define f where "f = \<lfloor>y\<rfloor>"
  define r where "r = (if y - of_int f < 1 / 2 then f
               else if y - of_int f > 1 / 2 then f + 1
               else if even f then f else f + 1)"
  have s: "0 < s" by (simp add: s_def)
  have fl: "of_int f \<le> y" "y < of_int f + 1" unfolding f_def by linarith+
  have "\<bar>of_int r - y\<bar> \<le> 1 / 2" using fl by (auto simp: r_def)
  with s have "\<bar>of_int r - y\<bar> / s \<le> 1 / (2 * s)" by (rule half_div)
  moreover have "of_int r / s - x = (of_int r - y) / s" using s by (simp add: y_def diff_divide_distrib)
  moreover have "py_round x n = of_int r / s"
    by (simp add: py_round_def Let_def r_def f_def y_def s_def)
  ultimately show ?thesis using s by (simp add: s_def abs_divide)
qed

lemma count_three_values:
  "list_all (\<lambda>p. p \<in> {0, 1, 2 :: 8 word}) px \<Longrightarrow>
   length (filter (\<lambda>p. p = 0) px) + length (filter (\<lambda>p. p = 1) px)
     + length (filter (\<lambda>p. p = 2) px) = length px"
  by (induction px) auto

lemma tone_summary_sum:
  assumes ne: "concat msk \<noteq> []" and vals: "list_all (\<lambda>p. p \<in> {0, 1, 2}) (concat msk)"
  shows "\<exists>a b c. tone_summary msk = Inr [(''deep_shadow'', a), (''mid_tone'', b), (''highlight'', c)]
          \<and> \<bar>a + b + c - 100\<bar> \<le> 3 / 20"
proof -
  define px where "px = concat msk"
  define t where "t = real (length px)"
  define e0 where "e0 = real (length (filter (\<lambda>p. p = 0) px)) / t * 100"
  define e1 where "e1 = real (length (filter (\<lambda>p. p = 1) px)) / t * 100"
  define e2 where "e2 = real (length (filter (\<lambda>p. p = 2) px)) / t * 100"
  have t: "0 < t" using ne by (simp add: t_def px_def)
  have ts: "tone_summary msk = Inr [(''deep_shadow'', py_round e0 1), (''mid_tone'', py_round e1 1),
      (''highlight'', py_round e2 1)]"
    using ne by (simp add: tone_summary_def Let_def e0_def e1_def e2_def t_def px_def)
  define c0 where "c0 = real (length (filter (\<lambda>p. p = 0) px))"
  define c1 where "c1 = real (length (filter (\<lambda>p. p = 1) px))"
  define c2 where "c2 = real (length (filter (\<lambda>p. p = 2) px))"
  from count_three_values [OF vals]
  have "c0 + c1 + c2 = t"
    unfolding t_def px_def c0_def c1_def c2_def by (simp only: of_nat_add [symmetric])
  moreover have "(c0 + c1 + c2) / t * 100 = e0 + e1 + e2"
    unfolding e0_def e1_def e2_def c0_def c1_def c2_def
    by (simp only: add_divide_distrib distrib_right)
  ultimately have "e0 + e1 + e2 = t / t * 100" by simp
  then have sum: "e0 + e1 + e2 = 100" using t by simp
  have "\<bar>py_round e0 1 - e0\<bar> \<le> 1 / 20" "\<bar>py_round e1 1 - e1\<bar> \<le> 1 / 20"
    "\<bar>py_round e2 1 - e2\<bar> \<le> 1 / 20"
    using py_round_error [of _ 1] by simp_all
  with sum have "\<bar>py_round e0 1 + py_round e1 1 + py_round e2 1 - 100\<bar> \<le> 3 / 20" by linarith
  with ts show ?thesis by blast
qed

text \<open>
  Claim C5, as amended: with the default bands \<^verbatim>\<open>generate_tone_mask\<close> gives every pixel
  of the smoothed image exactly one value of \<open>{0, 1, 2}\<close>, the value of the one default
  band that holds its intensity (for any band table, a pixel that no band holds keeps the
  initial value 2, the highlight); and for every mask with at least one pixel and only
  the values 0, 1, 2, the three percentages of \<^verbatim>\<open>tone_summary\<close> add up to 100 within
  0.15, three roundings to one decimal.
\<close>

theorem tone_mask_total_summary_100:
  "generate_tone_mask blur gray None k
      = map (map (\<lambda>p. if uint p \<le> 80 then 0 else if uint p \<le> 180 then 1 else 2)) (blur k gray)
   \<and> map length (generate_tone_mask blur gray None k) = map length (blur k gray)
   \<and> list_all (\<lambda>v. v \<in> {0, 1, 2}) (concat (generate_tone_mask blur gray None k))
   \<and> length (filter (\<lambda>(lbl, low, high, val). low \<le> uint (p :: 8 word) \<and> uint p \<le> high)
         tone_DEFAULT_BANDS) = 1
   \<and> generate_tone_mask blur gray (Some bands) k
      = map (map (\<lambda>q. band_value bands q 2)) (blur k gray)
   \<and> (list_all (\<lambda>(lbl, low, high, val). \<not> (low \<le> uint p \<and> uint p \<le> high)) bands
        \<longrightarrow> band_value bands p 2 = 2)
   \<and> (concat msk \<noteq> [] \<and> list_all (\<lambda>v. v \<in> {0, 1, 2}) (concat msk)
        \<longrightarrow> (\<exists>a b c. tone_summary msk
                       = Inr [(''deep_shadow'', a), (''mid_tone'', b), (''highlight'', c)]
                   \<and> \<bar>a + b + c - 100\<bar> \<le> 3 / 20))"
proof -
  let ?f = "\<lambda>p :: 8 word. if uint p \<le> 80 then 0 else if uint p \<le> 180 then 1 else (2 :: 8 word)"
  have 1: "generate_tone_mask blur gray None k = map (map ?f) (blur k gray)"
    by (simp add: generate_tone_mask_pixelwise band_value_default)
  have 2: "map length (generate_tone_mask blur gray None k) = map length (blur k gray)"
    unfolding 1 by simp
  have 3: "list_all (\<lambda>v. v \<in> {0, 1, 2}) (concat (generate_tone_mask blur gray None k))"
    unfolding 1 by (auto simp: list_all_iff)
  have 5: "generate_tone_mask blur gray (Some bands) k
      = map (map (\<lambda>q. band_value bands q 2)) (blur k gray)"
    by (simp add: generate_tone_mask_pixelwise)
  from 1 2 3 5 default_band_unique [of p] band_value_no_match [of p bands 2]
    tone_summary_sum [of msk]
  show ?thesis by blast
qed

theorem tone_mask_total_summary_100_witness:
  "generate_tone_mask (\<lambda>k g. g) [[70, 200], [100, 81]] None 7 = [[0, 2], [1, 1]]
   \<and> generate_tone_mask (\<lambda>k g. g) [[70, 200], [100, 81]] (Some [(''deep_shadow'', 0, 63, 0)]) 7
       = [[2, 2], [2, 2]]
   \<and> band_value [(''deep_shadow'', 0, 63, 0)] 70 2 = 2
   \<and> (\<exists>a b c. tone_summary [[0, 1, 2]]
                  = Inr [(''deep_shadow'', a), (''mid_tone'', b), (''highlight'', c)]
              \<and> \<bar>a + b + c - 100\<bar> \<le> 3 / 20)"
proof -
  have h1: "list_all (\<lambda>(lbl, low, high, val). \<not> (low \<le> uint (70 :: 8 word) \<and> uint (70 :: 8 word) \<le> high))
              [(''deep_shadow'', 0, 63, 0 :: 8 word)]" by simp
  have h2: "concat [[0, 1, 2 :: 8 word]] \<noteq> [] \<and> list_all (\<lambda>v. v \<in> {0, 1, 2}) (concat [[0, 1, 2 :: 8 word]])"
    by simp
  from tone_mask_total_summary_100 [of "\<lambda>k g. g" "[[70, 200], [100, 81]]" 7 70
      "[(''deep_shadow'', 0, 63, 0)]" "[[0, 1, 2]]"] h1 h2
  show ?thesis by simp
qed

text \<open>
  The mask with no pixel holds only values of \<open>{0, 1, 2}\<close>, and \<^verbatim>\<open>tone_summary\<close>
  raises on it: there are no percentages to add up.
\<close>

theorem tone_summary_empty_mask:
  "list_all (\<lambda>v. v \<in> {0, 1, 2}) (concat ([] :: gray_image))
   \<and> tone_summary [] = Inl ZeroDivisionError"
  by (simp add: tone_summary_def)

text \<open>
  Claim C10: the default band table of \<^verbatim>\<open>map_shading\<close> differs from the one of
  \<^verbatim>\<open>generate_tone_mask\<close>, and the intensity 70 shows it: the tone mask gives it the
  value 0 of deep shadow, while \<^verbatim>\<open>map_shading\<close> puts the pixel into a region
  labelled mid tone. The hypotheses say what OpenCV returns on a one-pixel image: the
  blur leaves it as it is, and the labelling finds no component in the mask \<open>[[0]]\<close>
  and one component of one pixel in the mask \<open>[[255]]\<close>.
\<close>

theorem band_tables_disagree:
  assumes "GaussianBlur k [[70]] = [[70]]"
    and "cc [[0]] = [bg0]" and "cc [[255]] = [bg1, one_pixel_row]"
  shows "map (\<lambda>(lbl, low, high, val). (lbl, low, high)) tone_DEFAULT_BANDS \<noteq> shading_DEFAULT_BANDS
    \<and> band_value tone_DEFAULT_BANDS 70 2 = 0
    \<and> filter (\<lambda>(lbl, low, high). low \<le> uint (70 :: 8 word) \<and> uint (70 :: 8 word) \<le> high)
          shading_DEFAULT_BANDS = [(''mid_tone'', 64, 191)]
    \<and> generate_tone_mask GaussianBlur [[70]] None k = [[0]]
    \<and> map_shading cc [[70]] None
        = Inr [\<lparr>region_id = 0, label = ''mid_tone'', intensity_range = (64, 191),
                 pixel_count = 1,
                 bounding_box = \<lparr>x_min = 0, y_min = 0, x_max = 1, y_max = 1\<rparr>\<rparr>]"
proof -
  have a: "map (\<lambda>(lbl, low, high, val). (lbl, low, high)) tone_DEFAULT_BANDS \<noteq> shading_DEFAULT_BANDS"
    by (simp add: tone_DEFAULT_BANDS_def shading_DEFAULT_BANDS_def)
  have b: "band_value tone_DEFAULT_BANDS 70 2 = 0" by (simp add: band_value_default)
  have c: "filter (\<lambda>(lbl, low, high). low \<le> uint (70 :: 8 word) \<and> uint (70 :: 8 word) \<le> high)
          shading_DEFAULT_BANDS = [(''mid_tone'', 64, 191)]"
    by (simp add: shading_DEFAULT_BANDS_def)
  have d: "generate_tone_mask GaussianBlur [[70]] None k = [[0]]"
    by (simp add: generate_tone_mask_pixelwise band_value_default assms(1))
  have r: "py_round 0 6 = 0" "py_round 1 6 = 1" by (simp_all add: py_round_def)
  have e: "map_shading cc [[70]] None
        = Inr [\<lparr>region_id = 0, label = ''mid_tone'', intensity_range = (64, 191),
                 pixel_count = 1,
                 bounding_box = \<lparr>x_min = 0, y_min = 0, x_max = 1, y_max = 1\<rparr>\<rparr>]"
    by (simp add: map_shading_def shading_DEFAULT_BANDS_def regions_for_band_def inRange_def
        assms(2,3) one_pixel_row_def r)
  from a b c d e show ?thesis by blast
qed

theorem band_tables_disagree_witness:
  "generate_tone_mask (\<lambda>k g. g) [[70]] None 7 = [[0]]
   \<and> map_shading cc_one_pixel [[70]] None
        = Inr [\<lparr>region_id = 0, label = ''mid_tone'', intensity_range = (64, 191),
                 pixel_count = 1,
                 bounding_box = \<lparr>x_min = 0, y_min = 0, x_max = 1, y_max = 1\<rparr>\<rparr>]"
proof -
  have h1: "(\<lambda>k g. g) (7 :: nat) [[70 :: 8 word]] = [[70]]" by simp
  have h2: "cc_one_pixel [[0]] = [one_pixel_row]"
    and h3: "cc_one_pixel [[255]] = [empty_row, one_pixel_row]"
    by (simp_all add: cc_one_pixel_def)
  from band_tables_disagree [of "\<lambda>k g. g" 7 cc_one_pixel, OF h1 h2 h3]
  show ?thesis by blast
qed

section \<open>Canvas renderer: proofs\<close>

lemma py_int_between:
  assumes "real_of_int a \<le> v" and "v \<le> real_of_int b"
  shows "a \<le> py_int v \<and> py_int v \<le> b"
proof (cases "0 \<le> v")
  case True
  have "a \<le> \<lfloor>v\<rfloor>" using assms(1) by (simp add: le_floor_iff)
  moreover have "\<lfloor>v\<rfloor> \<le> b" using assms(2) by linarith
  ultimately show ?thesis using True by (simp add: py_int_def)
next
  case False
  have "\<lceil>v\<rceil> \<le> b" using assms(2) by (simp add: ceiling_le_iff)
  moreover have "a \<le> \<lceil>v\<rceil>" using assms(1) by linarith
  ultimately show ?thesis using False by (simp add: py_int_def)
qed

lemma centred_offset:
  assumes "0 \<le> r" and "r \<le> (w::int)"
  shows "start \<le> start + (w - r) div 2 \<and> start + (w - r) div 2 + r \<le> start + w"
  using assms by linarith

lemma astype_int32_between:
  assumes "real_of_int a \<le> v" and "v \<le> real_of_int b" and "in_int32 a" and "in_int32 b"
  shows "\<exists>c. astype_int32 v = Inr c \<and> a \<le> c \<and> c \<le> b"
proof -
  from py_int_between [OF assms(1,2)] have "a \<le> py_int v" "py_int v \<le> b" by simp_all
  with assms(3,4) show ?thesis by (simp add: astype_int32_def in_int32_def)
qed

lemma scaled_cast_between:
  assumes "0 \<le> p" and "p \<le> 1" and "0 \<le> r" and "start \<le> off" and "off + r \<le> stop"
    and "in_int32 start" and "in_int32 stop"
  shows "\<exists>c. astype_int32 (p * real_of_int r + real_of_int off) = Inr c \<and> start \<le> c \<and> c \<le> stop"
proof (rule astype_int32_between [OF _ _ assms(6,7)])
  have "0 \<le> p * real_of_int r" using assms(1,3) by simp
  then show "real_of_int start \<le> p * real_of_int r + real_of_int off"
    using assms(4) by linarith
  have "p * real_of_int r \<le> 1 * real_of_int r"
    using assms(2,3) by (intro mult_right_mono) simp_all
  moreover have "real_of_int off + real_of_int r \<le> real_of_int stop"
    using assms(5) by linarith
  ultimately show "p * real_of_int r + real_of_int off \<le> real_of_int stop" by linarith
qed

lemma scale_points_inside:
  assumes "0 \<le> rw" and "xs \<le> ox" and "ox + rw \<le> xe" and "in_int32 xs" and "in_int32 xe"
    and "0 \<le> rh" and "ys \<le> oy" and "oy + rh \<le> ye" and "in_int32 ys" and "in_int32 ye"
  shows "\<forall>(px, py) \<in> set points. 0 \<le> px \<and> px \<le> 1 \<and> 0 \<le> py \<and> py \<le> 1 \<Longrightarrow>
    \<exists>pixels. scale_points rw rh ox oy points = Inr pixels \<and> length pixels = length points
      \<and> (\<forall>(cx, cy) \<in> set pixels. xs \<le> cx \<and> cx \<le> xe \<and> ys \<le> cy \<and> cy \<le> ye)"
proof (induction points)
  case Nil
  show ?case by simp
next
  case (Cons p points)
  obtain px py where p: "p = (px, py)" by (cases p)
  from Cons.prems have b: "0 \<le> px" "px \<le> 1" "0 \<le> py" "py \<le> 1"
    and rest: "\<forall>(px, py) \<in> set points. 0 \<le> px \<and> px \<le> 1 \<and> 0 \<le> py \<and> py \<le> 1"
    by (simp_all add: p)
  from scaled_cast_between [OF b(1,2) assms(1,2,3,4,5)] obtain cx where
    cx: "astype_int32 (px * real_of_int rw + real_of_int ox) = Inr cx" "xs \<le> cx" "cx \<le> xe"
    by blast
  from scaled_cast_between [OF b(3,4) assms(6,7,8,9,10)] obtain cy where
    cy: "astype_int32 (py * real_of_int rh + real_of_int oy) = Inr cy" "ys \<le> cy" "cy \<le> ye"
    by blast
  from Cons.IH [OF rest] obtain pixels where
    px: "scale_points rw rh ox oy points = Inr pixels" "length pixels = length points"
      "\<forall>(cx, cy) \<in> set pixels. xs \<le> cx \<and> cx \<le> xe \<and> ys \<le> cy \<and> cy \<le> ye"
    by blast
  show ?case
    by (rule exI [of _ "(cx, cy) # pixels"]) (simp add: p cx cy px)
qed

text \<open>
  Claim C9, as amended: for points with coordinates in \<open>[0, 1]\<close>, a draw area with
  \<open>x_start < x_end\<close> and \<open>y_start < y_end\<close> whose four bounds fit 32 bits, and a
  positive image aspect, \<^verbatim>\<open>_normalised_to_canvas\<close> returns one pixel per point, and
  every pixel lies in the rectangle \<open>[x_start, x_end] \<times> [y_start, y_end]\<close>. On the
  way: the fitted footprint is no larger than the draw area and the centring offsets are
  not negative.
\<close>

theorem normalised_to_canvas_inside:
  assumes pts: "\<forall>(px, py) \<in> set points. 0 \<le> px \<and> px \<le> 1 \<and> 0 \<le> py \<and> py \<le> 1"
    and x: "x_start < x_end" and y: "y_start < y_end" and a: "0 < image_aspect"
    and r: "in_int32 x_start" "in_int32 x_end" "in_int32 y_start" "in_int32 y_end"
  shows "\<exists>pixels. normalised_to_canvas points (x_start, y_start, x_end, y_end) image_aspect = Inr pixels
     \<and> length pixels = length points
     \<and> (\<forall>(cx, cy) \<in> set pixels. x_start \<le> cx \<and> cx \<le> x_end \<and> y_start \<le> cy \<and> cy \<le> y_end)"
proof -
  define area_w where "area_w = x_end - x_start"
  define area_h where "area_h = y_end - y_start"
  define area_aspect where "area_aspect = real_of_int area_w / real_of_int area_h"
  define render_w where "render_w = (if image_aspect > area_aspect then area_w
                           else py_int (real_of_int area_h * image_aspect))"
  define render_h where "render_h = (if image_aspect > area_aspect
                           then py_int (real_of_int area_w / image_aspect)
                           else area_h)"
  define offset_x where "offset_x = x_start + (area_w - render_w) div 2"
  define offset_y where "offset_y = y_start + (area_h - render_h) div 2"
  have w: "0 < area_w" and h: "0 < area_h" using x y by (simp_all add: area_w_def area_h_def)
  have res: "normalised_to_canvas points (x_start, y_start, x_end, y_end) image_aspect
      = scale_points render_w render_h offset_x offset_y points"
    unfolding normalised_to_canvas_def offset_x_def offset_y_def render_w_def
      render_h_def area_aspect_def area_w_def area_h_def Let_def
    using y a by simp
  have rw: "0 \<le> render_w \<and> render_w \<le> area_w"
  proof (cases "image_aspect > area_aspect")
    case True
    then show ?thesis using w by (simp add: render_w_def)
  next
    case False
    then have "image_aspect \<le> real_of_int area_w / real_of_int area_h"
      by (simp add: area_aspect_def)
    then have "image_aspect * real_of_int area_h \<le> real_of_int area_w"
      using h by (simp add: pos_le_divide_eq)
    moreover have "0 \<le> real_of_int area_h * image_aspect" using h a by simp
    ultimately have "0 \<le> py_int (real_of_int area_h * image_aspect)
        \<and> py_int (real_of_int area_h * image_aspect) \<le> area_w"
      by (intro py_int_between) (simp_all add: mult.commute)
    with False show ?thesis by (simp add: render_w_def)
  qed
  have rh: "0 \<le> render_h \<and> render_h \<le> area_h"
  proof (cases "image_aspect > area_aspect")
    case True
    then have "real_of_int area_w / real_of_int area_h < image_aspect"
      by (simp add: area_aspect_def)
    then have "real_of_int area_w < image_aspect * real_of_int area_h"
      using h by (simp add: pos_divide_less_eq)
    then have "real_of_int area_w / image_aspect \<le> real_of_int area_h"
      using a by (simp add: pos_divide_le_eq mult.commute)
    moreover have "0 \<le> real_of_int area_w / image_aspect" using w a by simp
    ultimately have "0 \<le> py_int (real_of_int area_w / image_aspect)
        \<and> py_int (real_of_int area_w / image_aspect) \<le> area_h"
      by (intro py_int_between) simp_all
    with True show ?thesis by (simp add: render_h_def)
  next
    case False
    then show ?thesis using h by (simp add: render_h_def)
  qed
  from centred_offset [of render_w area_w x_start] rw
  have ox: "x_start \<le> offset_x" "offset_x + render_w \<le> x_end"
    by (simp_all add: offset_x_def area_w_def)
  from centred_offset [of render_h area_h y_start] rh
  have oy: "y_start \<le> offset_y" "offset_y + render_h \<le> y_end"
    by (simp_all add: offset_y_def area_h_def)
  from rw rh have "0 \<le> render_w" "0 \<le> render_h" by simp_all
  from scale_points_inside [OF this(1) ox r(1,2) this(2) oy r(3,4) pts]
  show ?thesis unfolding res .
qed

theorem normalised_to_canvas_inside_witness:
  "normalised_to_canvas [(0, 0), (1, 1), (1 / 2, 1 / 3)] (62, 87, 1178, 1667) (4 / 3)
     = Inr [(62, 458), (1178, 1295), (620, 737)]
   \<and> (\<exists>pixels. normalised_to_canvas [(0, 0), (1, 1), (1 / 2, 1 / 3)] (62, 87, 1178, 1667) (4 / 3)
         = Inr pixels
       \<and> length pixels = 3
       \<and> list_all (\<lambda>(cx, cy). 62 \<le> cx \<and> cx \<le> 1178 \<and> 87 \<le> cy \<and> cy \<le> 1667) pixels)"
proof -
  have h: "\<forall>(px, py) \<in> set [(0 :: real, 0 :: real), (1, 1), (1 / 2, 1 / 3)].
      0 \<le> px \<and> px \<le> 1 \<and> 0 \<le> py \<and> py \<le> 1" by simp
  have i: "in_int32 62" "in_int32 1178" "in_int32 87" "in_int32 1667"
    by (simp_all add: in_int32_def)
  have v: "normalised_to_canvas [(0, 0), (1, 1), (1 / 2, 1 / 3)] (62, 87, 1178, 1667) (4 / 3)
     = Inr [(62, 458), (1178, 1295), (620, 737)]"
    by (simp add: normalised_to_canvas_def py_int_def astype_int32_def)
  from normalised_to_canvas_inside [OF h _ _ _ i, of "4 / 3"] v
  show ?thesis by simp
qed

text \<open>
  A draw area beyond the 32-bit range meets every condition of the claim as it was
  stated, and the transform yields no pixel inside it: the cast to \<^verbatim>\<open>int32\<close> is
  undefined there (and whatever 32-bit value it leaves is below \<open>x_start\<close>).
\<close>

theorem normalised_to_canvas_beyond_int32:
  "normalised_to_canvas [(0, 0)] (2147483648, 0, 2147483658, 10) 1 = Inl UndefinedCast"
  by (simp add: normalised_to_canvas_def py_int_def astype_int32_def)

section \<open>Blueprint engine: proofs\<close>

lemma lm_by_name_find: "lm_by_name lms n = find (\<lambda>lm. lm_name lm = n) lms"
  by (induction lms) simp_all

lemma lm_by_name_None: "lm_by_name lms n = None \<longleftrightarrow> n \<notin> lm_name ` set lms"
  by (induction lms) auto

lemma pair_error_clamped: "0 \<le> pair_error lms p \<and> pair_error lms p \<le> 1"
  by (cases p) (simp add: pair_error_def Let_def)

lemma score_loop_filter:
  assumes "\<forall>(a, b, key) \<in> set ps. key \<in> fst ` set IDEAL_PROPORTIONS"
  shows "score_loop lms ps errors = Inr (errors @ map (pair_error lms)
      (filter (\<lambda>(a, b, key). a \<in> lm_name ` set lms \<and> b \<in> lm_name ` set lms) ps))"
  using assms
proof (induction ps arbitrary: errors)
  case Nil
  show ?case by simp
next
  case (Cons p ps)
  obtain a b key where p: "p = (a, b, key)" by (cases p)
  from Cons.prems have "key \<in> dom (map_of IDEAL_PROPORTIONS)"
    by (simp add: p dom_map_of_conv_image_fst)
  then obtain ideal where ideal: "map_of IDEAL_PROPORTIONS key = Some ideal" by blast
  from Cons.prems have rest: "\<forall>(a, b, key) \<in> set ps. key \<in> fst ` set IDEAL_PROPORTIONS"
    by simp
  note IH = Cons.IH [OF rest]
  show ?case
  proof (cases "lm_by_name lms a")
    case None
    then have "a \<notin> lm_name ` set lms" by (simp add: lm_by_name_None)
    with None show ?thesis by (simp add: p IH)
  next
    case sa: (Some la)
    then have ina: "a \<in> lm_name ` set lms" using lm_by_name_None [of lms a] by auto
    show ?thesis
    proof (cases "lm_by_name lms b")
      case None
      then have "b \<notin> lm_name ` set lms" by (simp add: lm_by_name_None)
      with sa None show ?thesis by (simp add: p IH)
    next
      case sb: (Some lb)
      then have inb: "b \<in> lm_name ` set lms" using lm_by_name_None [of lms b] by auto
      have "0 \<le> \<bar>landmark_dist la lb - ideal\<bar> / max ideal (1 / 1000000)"
        by (intro divide_nonneg_nonneg) simp_all
      then have "pair_error lms (a, b, key)
          = min (\<bar>landmark_dist la lb - ideal\<bar> / max ideal (1 / 1000000)) 1"
        using sa sb by (simp add: pair_error_def Let_def lm_by_name_find [symmetric] ideal)
      with sa sb ina inb show ?thesis by (simp add: p IH ideal)
    qed
  qed
qed

text \<open>
  Claim C4: \<^verbatim>\<open>_score_proportions\<close> never fails; a pair of the seven with a name missing
  from the landmarks is left out altogether; with every pair left out the score is
  exactly 50; otherwise it is one minus the mean of the errors of the remaining pairs,
  each within \<open>[0, 1]\<close>, times 100 and rounded to two decimals.
\<close>

theorem score_proportions_mean:
  "score_proportions lms =
     Inr (if resolvable_pairs lms = [] then 50
          else py_round ((1 - sum_list (map (pair_error lms) (resolvable_pairs lms))
                              / real (length (resolvable_pairs lms))) * 100) 2)
   \<and> list_all (\<lambda>p. 0 \<le> pair_error lms p \<and> pair_error lms p \<le> 1) (resolvable_pairs lms)
   \<and> length (resolvable_pairs lms) \<le> 7"
proof -
  have keys: "\<forall>(a, b, key) \<in> set score_pairs. key \<in> fst ` set IDEAL_PROPORTIONS"
    by (simp add: score_pairs_def IDEAL_PROPORTIONS_def)
  have "score_loop lms score_pairs [] = Inr (map (pair_error lms) (resolvable_pairs lms))"
    using score_loop_filter [OF keys, of lms "[]"] by (simp add: resolvable_pairs_def)
  then have 1: "score_proportions lms =
     Inr (if resolvable_pairs lms = [] then 50
          else py_round ((1 - sum_list (map (pair_error lms) (resolvable_pairs lms))
                              / real (length (resolvable_pairs lms))) * 100) 2)"
    by (simp add: score_proportions_def)
  have 2: "list_all (\<lambda>p. 0 \<le> pair_error lms p \<and> pair_error lms p \<le> 1) (resolvable_pairs lms)"
    by (simp add: list_all_iff pair_error_clamped)
  have "length (resolvable_pairs lms) \<le> length score_pairs"
    unfolding resolvable_pairs_def by (rule length_filter_le)
  then have 3: "length (resolvable_pairs lms) \<le> 7" by (simp add: score_pairs_def)
  from 1 2 3 show ?thesis by blast
qed


lemma example_dist: "landmark_dist nose_lm shoulder_lm = 3 / 20"
proof -
  have "sqrt ((3 / 20)\<^sup>2) = 3 / 20" by (simp only: real_sqrt_abs)
  then show ?thesis
    by (simp add: landmark_dist_def power2_eq_square nose_lm_def shoulder_lm_def)
qed

lemma example_pair_error:
  "pair_error [nose_lm, shoulder_lm] (''nose'', ''left_shoulder'', ''head_to_shoulder'') = 1 / 4"
proof -
  have f1: "find (\<lambda>lm. lm_name lm = ''nose'') [nose_lm, shoulder_lm] = Some nose_lm"
    by (simp add: nose_lm_def)
  have f2: "find (\<lambda>lm. lm_name lm = ''left_shoulder'') [nose_lm, shoulder_lm] = Some shoulder_lm"
    by (simp add: nose_lm_def shoulder_lm_def)
  have t: "map_of IDEAL_PROPORTIONS ''head_to_shoulder'' = Some (12 / 100)"
    by (simp add: IDEAL_PROPORTIONS_def)
  show ?thesis
    unfolding pair_error_def Let_def prod.case f1 f2 t option.sel example_dist by simp
qed

lemma example_resolvable:
  "resolvable_pairs [nose_lm, shoulder_lm] = [(''nose'', ''left_shoulder'', ''head_to_shoulder'')]"
  by (simp add: resolvable_pairs_def score_pairs_def nose_lm_def shoulder_lm_def)

theorem score_proportions_mean_witness:
  "score_proportions [] = Inr 50 \<and> score_proportions [nose_lm, shoulder_lm] = Inr 75"
proof -
  have "py_round 75 2 = 75" by (simp add: py_round_def)
  then have "score_proportions [nose_lm, shoulder_lm] = Inr 75"
    using score_proportions_mean [of "[nose_lm, shoulder_lm]"]
    by (simp add: example_resolvable example_pair_error)
  moreover have "resolvable_pairs [] = []" by (simp add: resolvable_pairs_def score_pairs_def)
  then have "score_proportions [] = Inr 50"
    using score_proportions_mean [of "[]"] by simp
  ultimately show ?thesis by simp
qed

section \<open>Contour analyzer: proofs\<close>

lemma hierarchy_parent_in_range:
  "i < length hier \<Longrightarrow> hierarchy_parent hier (int i) = Inr (parent_of hier i)"
  by (simp add: hierarchy_parent_def parent_of_def split: prod.splits)

lemma forest_parent:
  assumes "forest hier rank" and "i < length hier"
  shows "parent_of hier i = - 1
    \<or> (0 \<le> parent_of hier i \<and> nat (parent_of hier i) < length hier
        \<and> rank (nat (parent_of hier i)) < rank i)"
proof -
  from assms have "case hier ! i of (nxt, prv, child, parent) \<Rightarrow>
        parent = - 1 \<or> (0 \<le> parent \<and> parent < int (length hier) \<and> rank (nat parent) < rank i)"
    by (simp add: forest_def list_all_iff)
  then show ?thesis by (auto simp: parent_of_def split: prod.splits)
qed

lemma compute_depth_loop_forest:
  assumes "forest hier rank"
  shows "i < length hier \<Longrightarrow> \<exists>k. compute_depth_loop hier (int i) d = Some (Inr (d + int k))"
proof (induction i arbitrary: d rule: measure_induct_rule [where f = rank])
  case (less i)
  note step = compute_depth_loop.simps [of hier "int i" d]
  from forest_parent [OF assms less.prems]
  show ?case
  proof
    assume "parent_of hier i = - 1"
    then have "compute_depth_loop hier (int i) d = Some (Inr (d + int 0))"
      using less.prems by (simp add: step hierarchy_parent_in_range)
    then show ?thesis by blast
  next
    assume p: "0 \<le> parent_of hier i \<and> nat (parent_of hier i) < length hier
        \<and> rank (nat (parent_of hier i)) < rank i"
    then have ne: "parent_of hier i \<noteq> - 1" by simp
    from p less.IH [of "nat (parent_of hier i)" "d + 1"]
    obtain k where "compute_depth_loop hier (parent_of hier i) (d + 1) = Some (Inr (d + 1 + int k))"
      by auto
    then have "compute_depth_loop hier (int i) d = Some (Inr (d + int (Suc k)))"
      using less.prems ne by (simp add: step hierarchy_parent_in_range)
    then show ?thesis by blast
  qed
qed

lemma compute_depth_forest:
  assumes "forest hier rank" and "i < length hier"
  shows "compute_depth hier (int i) = Some (Inr (depth_of hier i)) \<and> 0 \<le> depth_of hier i"
proof -
  from compute_depth_loop_forest [OF assms, of 0] obtain k where
    "compute_depth hier (int i) = Some (Inr (int k))" by (auto simp: compute_depth_def)
  then show ?thesis by (simp add: depth_of_def)
qed

lemma analyze_loop_forest:
  assumes "forest hier rank" and "0 < h * w"
  shows "\<forall>(idx, contour) \<in> set es. idx < length hier \<Longrightarrow>
    analyze_loop hier w h m es analyzed =
      Some (Inr (analyzed @
        map (\<lambda>(idx, contour). analyzed_contour w h contour (depth_of hier idx) (parent_of hier idx))
          (filter (\<lambda>(idx, contour). \<not> contourArea contour < m) es)))"
proof (induction es arbitrary: analyzed)
  case Nil
  show ?case by simp
next
  case (Cons e es)
  obtain idx contour where e: "e = (idx, contour)" by (cases e)
  from Cons.prems have idx: "idx < length hier"
    and rest: "\<forall>(idx, contour) \<in> set es. idx < length hier" by (simp_all add: e)
  note IH = Cons.IH [OF rest]
  show ?case
  proof (cases "contourArea contour < m")
    case True
    then show ?thesis by (simp add: e IH)
  next
    case False
    from compute_depth_forest [OF assms(1) idx]
    have "compute_depth hier (int idx) = Some (Inr (depth_of hier idx))" by simp
    with False assms(2) show ?thesis
      by (simp add: e IH hierarchy_parent_in_range [OF idx])
  qed
qed

lemma extract_contours_forest:
  assumes "forest hier rank" and "length hier = length cnts" and "0 < h * w"
  shows "extract_contours h w cnts hier fraction =
      Some (Inr (map (\<lambda>(idx, contour).
                    analyzed_contour w h contour (depth_of hier idx) (parent_of hier idx))
                  (surviving h w cnts fraction)))"
proof -
  have "\<forall>(idx, contour) \<in> set (enumerate 0 cnts). idx < length hier"
    using assms(2) by (auto simp: in_set_enumerate_eq)
  from analyze_loop_forest [OF assms(1,3) this, of "real (h * w) * fraction" "[]"]
  show ?thesis by (simp add: extract_contours_def surviving_def)
qed

lemma sort_reverse_descending:
  "sorted_wrt (\<lambda>a b. key a \<ge> key b) (sort_reverse key xs)"
proof -
  have "sorted (map key (sort_key key (rev xs)))" by (rule sorted_sort_key)
  then have "sorted_wrt (\<lambda>a b. key a \<le> key b) (sort_key key (rev xs))"
    by (simp add: sorted_wrt_map)
  then show ?thesis by (simp add: sort_reverse_def sorted_wrt_rev)
qed

lemma sort_reverse_stable:
  "filter (\<lambda>x. key x = k) (sort_reverse key xs) = filter (\<lambda>x. key x = k) xs"
proof -
  have "filter (\<lambda>x. key x = k) (sort_reverse key xs)
      = rev (filter (\<lambda>x. key x = k) (sort_key key (rev xs)))"
    by (simp add: sort_reverse_def rev_filter)
  also have "\<dots> = rev (filter (\<lambda>x. key x = k) (rev xs))"
    by (simp only: sort_key_stable)
  also have "\<dots> = filter (\<lambda>x. key x = k) xs" by (simp add: rev_filter)
  finally show ?thesis .
qed

lemma mset_sort_reverse: "mset (sort_reverse key xs) = mset xs"
  by (simp add: sort_reverse_def)

lemma analyze_contours_forest:
  assumes "forest hier rank" and "length hier = length cnts" and "0 < h * w"
  shows "analyze_contours h w cnts (Some hier) fraction =
      Some (Inr (sort_reverse importance_score
        (map (\<lambda>(idx, contour).
               analyzed_contour w h contour (depth_of hier idx) (parent_of hier idx))
          (surviving h w cnts fraction))))"
proof (cases "cnts = []")
  case True
  then show ?thesis
    by (simp add: analyze_contours_def surviving_def sort_reverse_def)
next
  case False
  then show ?thesis
    by (simp add: analyze_contours_def extract_contours_forest [OF assms])
qed

lemma set_sort_reverse: "set (sort_reverse key xs) = set xs"
  by (simp add: sort_reverse_def)

lemma example_forest: "forest example_hierarchy (\<lambda>i. i)"
  by (simp add: forest_def example_hierarchy_def upt_rec)

lemma example_surviving:
  "surviving 100 100 example_contours (1 / 2000)
    = [(0, example_contours ! 0), (2, example_contours ! 2), (3, example_contours ! 3)]"
  by (simp add: surviving_def example_contours_def enumerate_eq_zip upt_rec)

text \<open>
  Claim C6: on a hierarchy without cycles \<^verbatim>\<open>analyze_contours\<close> returns, and every
  contour it returns has importance 0.50 times the depth weight plus 0.35 times the area
  weight plus 0.15 times the structure weight, where the depth weight is
  \<open>max(0, 5 - depth) / 5\<close> (0 from depth 5 on), the area weight \<open>min(area * 10, 1)\<close>
  and the structure weight \<open>min(perimeter * 2, 1)\<close>; depth, area and perimeter are
  the hierarchy depth and the normalised measurements of the surviving contours.
\<close>

theorem importance_formula:
  assumes "forest hier rank" and "length hier = length cnts" and "0 < h * w"
  shows "\<exists>result. analyze_contours h w cnts (Some hier) fraction = Some (Inr result)
    \<and> list_all (\<lambda>c. importance_score c =
          50 / 100 * (real_of_int (max 0 (5 - depth c)) / 5)
          + 35 / 100 * min (area c * 10) 1
          + 15 / 100 * min (perimeter c * 2) 1
        \<and> (5 \<le> depth c \<longrightarrow> real_of_int (max 0 (5 - depth c)) / 5 = 0)) result
    \<and> mset (map (\<lambda>c. (depth c, area c, perimeter c)) result)
        = mset (map (\<lambda>(idx, contour). (depth_of hier idx, contourArea contour / real (h * w),
                         arcLength contour / real (max w h)))
                 (surviving h w cnts fraction))"
proof -
  let ?g = "\<lambda>(idx, contour). analyzed_contour w h contour (depth_of hier idx) (parent_of hier idx)"
  let ?an = "map ?g (surviving h w cnts fraction)"
  let ?P = "\<lambda>c. importance_score c =
          50 / 100 * (real_of_int (max 0 (5 - depth c)) / 5)
          + 35 / 100 * min (area c * 10) 1
          + 15 / 100 * min (perimeter c * 2) 1
        \<and> (5 \<le> depth c \<longrightarrow> real_of_int (max 0 (5 - depth c)) / 5 = 0)"
  have P: "?P (analyzed_contour w h contour d p)" for contour d p
    by (simp add: analyzed_contour_def Let_def)
  have "\<forall>c \<in> set ?an. ?P c" using P by auto
  then have 1: "list_all ?P (sort_reverse importance_score ?an)"
    by (simp only: list_all_iff set_sort_reverse)
  have l: "map (\<lambda>c. (depth c, area c, perimeter c)) ?an
      = map (\<lambda>(idx, contour). (depth_of hier idx, contourArea contour / real (h * w),
                         arcLength contour / real (max w h)))
                 (surviving h w cnts fraction)"
    by (auto simp: analyzed_contour_def Let_def mult.commute)
  have "mset (map (\<lambda>c. (depth c, area c, perimeter c)) (sort_reverse importance_score ?an))
      = mset (map (\<lambda>c. (depth c, area c, perimeter c)) ?an)"
    by (simp only: mset_map mset_sort_reverse)
  then have 2: "mset (map (\<lambda>c. (depth c, area c, perimeter c)) (sort_reverse importance_score ?an))
      = mset (map (\<lambda>(idx, contour). (depth_of hier idx, contourArea contour / real (h * w),
                         arcLength contour / real (max w h)))
                 (surviving h w cnts fraction))"
    by (simp only: l)
  from analyze_contours_forest [OF assms, of fraction] 1 2 show ?thesis by blast
qed

text \<open>
  Claim C7: the list \<^verbatim>\<open>analyze_contours\<close> returns is in descending order of importance
  and the sort is stable: for every score, the contours of that score come in the order
  in which the extraction loop produced them.
\<close>

theorem sorted_descending_stable:
  assumes "forest hier rank" and "length hier = length cnts" and "0 < h * w"
  shows "\<exists>analyzed result.
      extract_contours h w cnts hier fraction = Some (Inr analyzed)
    \<and> analyze_contours h w cnts (Some hier) fraction = Some (Inr result)
    \<and> sorted_wrt (\<lambda>a b. importance_score a \<ge> importance_score b) result
    \<and> (\<forall>k. filter (\<lambda>c. importance_score c = k) result
            = filter (\<lambda>c. importance_score c = k) analyzed)
    \<and> mset result = mset analyzed"
proof -
  let ?an = "map (\<lambda>(idx, contour).
               analyzed_contour w h contour (depth_of hier idx) (parent_of hier idx))
          (surviving h w cnts fraction)"
  from extract_contours_forest [OF assms, of fraction] analyze_contours_forest [OF assms, of fraction]
    sort_reverse_descending [of importance_score ?an]
    sort_reverse_stable [of importance_score _ ?an]
    mset_sort_reverse [of importance_score ?an]
  show ?thesis by blast
qed

text \<open>
  Claim C8: the tier is a function of the depth alone, depth 0 giving outer, depths 1 and
  2 inner, depth 3 and more detail; every contour \<^verbatim>\<open>analyze_contours\<close> returns has a
  depth that is not negative and the tier of that depth.
\<close>

theorem tier_from_depth:
  assumes "forest hier rank" and "length hier = length cnts" and "0 < h * w"
  shows "classify_tier 0 = ''outer'' \<and> classify_tier 1 = ''inner'' \<and> classify_tier 2 = ''inner''
    \<and> (3 \<le> d \<longrightarrow> classify_tier d = ''detail'')
    \<and> (\<exists>result. analyze_contours h w cnts (Some hier) fraction = Some (Inr result)
          \<and> list_all (\<lambda>c. 0 \<le> depth c \<and> tier c = classify_tier (depth c)) result)"
proof -
  let ?g = "\<lambda>(idx, contour). analyzed_contour w h contour (depth_of hier idx) (parent_of hier idx)"
  let ?an = "map ?g (surviving h w cnts fraction)"
  have idx: "idx < length hier" if "(idx, contour) \<in> set (surviving h w cnts fraction)"
    for idx contour
    using that assms(2) by (auto simp: surviving_def in_set_enumerate_eq)
  have "0 \<le> depth (?g e) \<and> tier (?g e) = classify_tier (depth (?g e))"
    if "e \<in> set (surviving h w cnts fraction)" for e
  proof -
    obtain idx contour where e: "e = (idx, contour)" by (cases e)
    from compute_depth_forest [OF assms(1) idx] that
    have "0 \<le> depth_of hier idx" by (simp add: e)
    then show ?thesis by (simp add: e analyzed_contour_def Let_def)
  qed
  then have "\<forall>c \<in> set ?an. 0 \<le> depth c \<and> tier c = classify_tier (depth c)" by auto
  then have "list_all (\<lambda>c. 0 \<le> depth c \<and> tier c = classify_tier (depth c))
      (sort_reverse importance_score ?an)"
    by (simp only: list_all_iff set_sort_reverse)
  with analyze_contours_forest [OF assms, of fraction] show ?thesis
    by (auto simp: classify_tier_def)
qed


lemma example_parents:
  "parent_of example_hierarchy 0 = - 1" "parent_of example_hierarchy 2 = 0"
  "parent_of example_hierarchy 3 = - 1"
  by (simp_all add: parent_of_def example_hierarchy_def)

lemma example_depths:
  "depth_of example_hierarchy 0 = 0" "depth_of example_hierarchy 2 = 1"
  "depth_of example_hierarchy 3 = 0"
  by (simp_all add: depth_of_def compute_depth_def compute_depth_loop.simps
      hierarchy_parent_def example_hierarchy_def)

lemma example_scores:
  "importance_score (analyzed_contour 100 100 (example_contours ! 0) 0 (- 1)) = 1"
  "importance_score (analyzed_contour 100 100 (example_contours ! 2) 1 0) = 555 / 1000"
  "importance_score (analyzed_contour 100 100 (example_contours ! 3) 0 (- 1)) = 1"
  by (simp_all add: analyzed_contour_def Let_def example_contours_def)

lemma example_centroids:
  "centroid (analyzed_contour 100 100 (example_contours ! 0) 0 (- 1)) = (45 / 100, 45 / 100)"
  "centroid (analyzed_contour 100 100 (example_contours ! 3) 0 (- 1)) = (50 / 100, 50 / 100)"
  by (simp_all add: analyzed_contour_def Let_def example_contours_def compute_centroid_def)

lemma example_extract:
  "extract_contours 100 100 example_contours example_hierarchy (1 / 2000) =
     Some (Inr [analyzed_contour 100 100 (example_contours ! 0) 0 (- 1),
                analyzed_contour 100 100 (example_contours ! 2) 1 0,
                analyzed_contour 100 100 (example_contours ! 3) 0 (- 1)])"
proof -
  have "length example_hierarchy = length example_contours"
    by (simp add: example_hierarchy_def example_contours_def)
  from extract_contours_forest [OF example_forest this, of 100 100 "1 / 2000"]
  show ?thesis by (simp add: example_surviving example_parents example_depths)
qed

lemma example_analyze:
  "analyze_contours 100 100 example_contours (Some example_hierarchy) (1 / 2000) =
     Some (Inr [analyzed_contour 100 100 (example_contours ! 0) 0 (- 1),
                analyzed_contour 100 100 (example_contours ! 3) 0 (- 1),
                analyzed_contour 100 100 (example_contours ! 2) 1 0])"
proof -
  have "example_contours \<noteq> []" by (simp add: example_contours_def)
  then show ?thesis
    by (simp add: analyze_contours_def example_extract sort_reverse_def example_scores)
qed


lemma example_well_formed:
  "length example_hierarchy = length example_contours" "(0::nat) < 100 * 100"
  by (simp_all add: example_hierarchy_def example_contours_def)

theorem importance_formula_witness:
  "analyze_contours 100 100 example_contours (Some example_hierarchy) (1 / 2000) =
     Some (Inr [analyzed_contour 100 100 (example_contours ! 0) 0 (- 1),
                analyzed_contour 100 100 (example_contours ! 3) 0 (- 1),
                analyzed_contour 100 100 (example_contours ! 2) 1 0])
   \<and> list_all (\<lambda>c. importance_score c =
          50 / 100 * (real_of_int (max 0 (5 - depth c)) / 5)
          + 35 / 100 * min (area c * 10) 1
          + 15 / 100 * min (perimeter c * 2) 1)
       [analyzed_contour 100 100 (example_contours ! 0) 0 (- 1),
        analyzed_contour 100 100 (example_contours ! 3) 0 (- 1),
        analyzed_contour 100 100 (example_contours ! 2) 1 0]
   \<and> map importance_score
       [analyzed_contour 100 100 (example_contours ! 0) 0 (- 1),
        analyzed_contour 100 100 (example_contours ! 3) 0 (- 1),
        analyzed_contour 100 100 (example_contours ! 2) 1 0] = [1, 1, 555 / 1000]"
proof -
  from importance_formula [OF example_forest example_well_formed, of "1 / 2000"]
  obtain result where
    "analyze_contours 100 100 example_contours (Some example_hierarchy) (1 / 2000)
       = Some (Inr result)"
    and "list_all (\<lambda>c. importance_score c =
          50 / 100 * (real_of_int (max 0 (5 - depth c)) / 5)
          + 35 / 100 * min (area c * 10) 1
          + 15 / 100 * min (perimeter c * 2) 1
        \<and> (5 \<le> depth c \<longrightarrow> real_of_int (max 0 (5 - depth c)) / 5 = 0)) result"
    by blast
  then show ?thesis by (auto simp: example_analyze example_scores)
qed

theorem sorted_descending_stable_witness:
  "extract_contours 100 100 example_contours example_hierarchy (1 / 2000) =
     Some (Inr [analyzed_contour 100 100 (example_contours ! 0) 0 (- 1),
                analyzed_contour 100 100 (example_contours ! 2) 1 0,
                analyzed_contour 100 100 (example_contours ! 3) 0 (- 1)])
   \<and> analyze_contours 100 100 example_contours (Some example_hierarchy) (1 / 2000) =
     Some (Inr [analyzed_contour 100 100 (example_contours ! 0) 0 (- 1),
                analyzed_contour 100 100 (example_contours ! 3) 0 (- 1),
                analyzed_contour 100 100 (example_contours ! 2) 1 0])
   \<and> sorted_wrt (\<lambda>a b. importance_score a \<ge> importance_score b)
       [analyzed_contour 100 100 (example_contours ! 0) 0 (- 1),
        analyzed_contour 100 100 (example_contours ! 3) 0 (- 1),
        analyzed_contour 100 100 (example_contours ! 2) 1 0]
   \<and> importance_score (analyzed_contour 100 100 (example_contours ! 0) 0 (- 1))
       = importance_score (analyzed_contour 100 100 (example_contours ! 3) 0 (- 1))
   \<and> analyzed_contour 100 100 (example_contours ! 0) 0 (- 1)
       \<noteq> analyzed_contour 100 100 (example_contours ! 3) 0 (- 1)"
proof -
  from sorted_descending_stable [OF example_forest example_well_formed, of "1 / 2000"]
  obtain analyzed result where
    "extract_contours 100 100 example_contours example_hierarchy (1 / 2000) = Some (Inr analyzed)"
    and "analyze_contours 100 100 example_contours (Some example_hierarchy) (1 / 2000)
       = Some (Inr result)"
    and "sorted_wrt (\<lambda>a b. importance_score a \<ge> importance_score b) result"
    by blast
  moreover have "analyzed_contour 100 100 (example_contours ! 0) 0 (- 1)
       \<noteq> analyzed_contour 100 100 (example_contours ! 3) 0 (- 1)"
  proof -
    have "centroid (analyzed_contour 100 100 (example_contours ! 0) 0 (- 1))
        \<noteq> centroid (analyzed_contour 100 100 (example_contours ! 3) 0 (- 1))"
      unfolding example_centroids by simp
    then show ?thesis by (rule contrapos_nn) simp
  qed
  ultimately show ?thesis by (simp add: example_analyze example_extract example_scores)
qed

theorem tier_from_depth_witness:
  "analyze_contours 100 100 example_contours (Some example_hierarchy) (1 / 2000) =
     Some (Inr [analyzed_contour 100 100 (example_contours ! 0) 0 (- 1),
                analyzed_contour 100 100 (example_contours ! 3) 0 (- 1),
                analyzed_contour 100 100 (example_contours ! 2) 1 0])
   \<and> map (\<lambda>c. (depth c, tier c))
       [analyzed_contour 100 100 (example_contours ! 0) 0 (- 1),
        analyzed_contour 100 100 (example_contours ! 3) 0 (- 1),
        analyzed_contour 100 100 (example_contours ! 2) 1 0]
       = [(0, ''outer''), (0, ''outer''), (1, ''inner'')]
   \<and> classify_tier 3 = ''detail''"
proof -
  have "(3::int) \<le> 3" by simp
  with tier_from_depth [OF example_forest example_well_formed, of 3 "1 / 2000"]
  have "classify_tier 3 = ''detail''" by blast
  then show ?thesis
    by (simp add: example_analyze analyzed_contour_def Let_def classify_tier_def)
qed

end
